theory Spec2Isabelle
  imports Main "HOL-Library.Sublist"
begin

section \<open>JavaScript values\<close>

text \<open>
  The values that flow through the components: the value of a form field, the \<open>id\<close> of a
  select option, the value of a signal. Objects are left out; \<open>===\<close> on the values kept
  here is equality of the datatype (numbers are integers, so there is no \<open>NaN\<close> among them).
\<close>

datatype jsval = JUndefined | JNull | JBool bool | JNum int | JStr string

text \<open>\<open>a ?? b\<close>: the right operand replaces a left operand that is \<open>null\<close> or \<open>undefined\<close>.\<close>

definition nullish :: "jsval \<Rightarrow> bool" where
  "nullish v = (v = JNull \<or> v = JUndefined)"

definition coalesce :: "jsval \<Rightarrow> jsval \<Rightarrow> jsval" where
  "coalesce a b = (if nullish a then b else a)"

text \<open>
  An optional number (\<open>delay\<close>, \<open>config.debounce\<close>) is \<open>None\<close> when it is absent.
  \<open>if (n)\<close> and \<open>!n\<close> test its truthiness: absent and \<open>0\<close> are falsy.
\<close>

definition truthy_num :: "int option \<Rightarrow> bool" where
  "truthy_num n = (case n of None \<Rightarrow> False | Some d \<Rightarrow> d \<noteq> 0)"

section \<open>Timers and the debounce helper\<close>

text \<open>
  A pending \<open>setTimeout\<close>. The only callback the debounce helper hands to \<open>setTimeout\<close> is
  the closure \<open>() => { func(); delete debounceMap[identifier]; }\<close>, so a timer carries the
  two variables that closure captures. \<open>due\<close> is the time the caller asked for, the time of
  the call plus the delay; \<open>fires_at\<close> is the time from which the platform runs the timeout.
\<close>

record 'f timer =
  handle :: nat
  due :: int
  fires_at :: int
  ident :: string
  func :: 'f

text \<open>
  The state shared by everything that runs on the page: the clock (\<open>Date.now()\<close>, in
  milliseconds), the pending timeouts, the next timeout handle, and \<open>debounceMap\<close>, the
  module-level record of Debounce.ts from identifier (a property key, hence a string) to
  timeout handle. \<open>calls\<close> is the trace of the callbacks that have been invoked through
  the helper, with the time and the identifier of each invocation.
\<close>

record 'f sched =
  now :: int
  timers :: "'f timer list"
  next_handle :: nat
  debounceMap :: "string \<Rightarrow> nat option"
  calls :: "(int \<times> string \<times> 'f) list"

text \<open>
  The platform keeps the delay of a timeout in a signed 32-bit integer: a delay from \<open>1\<close>
  to \<open>2^31 - 1\<close> milliseconds is served as given, any other delay as \<open>1\<close> millisecond
  (the timers of Node, whose \<open>NodeJS.Timeout\<close> is the type Debounce.ts gives its handles).
\<close>

definition timer_delay :: "int \<Rightarrow> int" where
  "timer_delay d = (if 1 \<le> d \<and> d \<le> 2147483647 then d else 1)"

text \<open>
  \<open>setTimeout(cb, delay)\<close> registers a timeout due \<open>delay\<close> milliseconds from now and
  returns its handle; \<open>clearTimeout(h)\<close> drops the timeout with that handle, if it is
  still pending.
\<close>

definition setTimeout :: "string \<Rightarrow> 'f \<Rightarrow> int \<Rightarrow> ('f, 'z) sched_scheme \<Rightarrow> nat \<times> ('f, 'z) sched_scheme" where
  "setTimeout k f delay w =
     (next_handle w,
      w\<lparr>timers := timers w @ [\<lparr>handle = next_handle w, due = now w + delay,
                                fires_at = now w + timer_delay delay, ident = k, func = f\<rparr>],
        next_handle := Suc (next_handle w)\<rparr>)"

definition clearTimeout :: "nat \<Rightarrow> ('f, 'z) sched_scheme \<Rightarrow> ('f, 'z) sched_scheme" where
  "clearTimeout h w = w\<lparr>timers := filter (\<lambda>tm. handle tm \<noteq> h) (timers w)\<rparr>"

text \<open>
  Calling \<open>func()\<close>: the call is entered in the trace and the callback's own effect on the
  state, \<open>exec\<close>, is applied.
\<close>

definition invoke :: "('f \<Rightarrow> ('f, 'z) sched_scheme \<Rightarrow> ('f, 'z) sched_scheme) \<Rightarrow> string \<Rightarrow> 'f
    \<Rightarrow> ('f, 'z) sched_scheme \<Rightarrow> ('f, 'z) sched_scheme" where
  "invoke exec k f w = exec f (w\<lparr>calls := calls w @ [(now w, k, f)]\<rparr>)"

text \<open>
  The second half of \<open>debounce\<close>, common to both variants: cancel and reschedule. The
  identifier is an ordinary property key: a property inherited from \<open>Object.prototype\<close> is
  no timeout handle, so that \<open>clearTimeout\<close> of it cancels nothing, as in the branch
  \<open>None\<close>, and the assignment then shadows it. The key \<open>__proto__\<close> is not ordinary:
  where timeout handles are numbers, assigning one to it stores no property, and a later
  call finds nothing to cancel. The property of two successive calls below leaves that
  key out.
\<close>

definition reschedule :: "string \<Rightarrow> 'f \<Rightarrow> int \<Rightarrow> ('f, 'z) sched_scheme \<Rightarrow> ('f, 'z) sched_scheme" where
  "reschedule k f delay w =
     (let w1 = (case debounceMap w k of Some h \<Rightarrow> clearTimeout h w | None \<Rightarrow> w);
          (h', w2) = setTimeout k f delay w1
      in w2\<lparr>debounceMap := (debounceMap w2)(k \<mapsto> h')\<rparr>)"

text \<open>
  \<open>debounce\<close> of src/Debounce.ts: \<open>delay\<close> defaults to \<open>0\<close>, and a falsy delay runs
  \<open>func\<close> at once and returns.
\<close>

definition debounce :: "('f \<Rightarrow> ('f, 'z) sched_scheme \<Rightarrow> ('f, 'z) sched_scheme) \<Rightarrow> string \<Rightarrow> 'f \<Rightarrow> int option
    \<Rightarrow> ('f, 'z) sched_scheme \<Rightarrow> ('f, 'z) sched_scheme" where
  "debounce exec k f delay w =
     (let d = (case delay of None \<Rightarrow> 0 | Some d \<Rightarrow> d) in
      if d = 0 then invoke exec k f w
      else reschedule k f d w)"

text \<open>
  \<open>debounce\<close> of the second variant (the file without the early return): \<open>delay\<close>
  defaults to \<open>500\<close> and every call goes through \<open>setTimeout\<close>.
\<close>

definition debounce500 :: "string \<Rightarrow> 'f \<Rightarrow> int option \<Rightarrow> ('f, 'z) sched_scheme \<Rightarrow> ('f, 'z) sched_scheme" where
  "debounce500 k f delay w =
     (let d = (case delay of None \<Rightarrow> 500 | Some d \<Rightarrow> d) in reschedule k f d w)"

text \<open>
  A timeout fires: it leaves the queue and its closure runs, \<open>func()\<close> first and
  \<open>delete debounceMap[identifier]\<close> after it.
\<close>

definition fire :: "('f \<Rightarrow> ('f, 'z) sched_scheme \<Rightarrow> ('f, 'z) sched_scheme) \<Rightarrow> 'f timer
    \<Rightarrow> ('f, 'z) sched_scheme \<Rightarrow> ('f, 'z) sched_scheme" where
  "fire exec tm w =
     (let w1 = w\<lparr>timers := filter (\<lambda>x. handle x \<noteq> handle tm) (timers w)\<rparr>;
          w2 = invoke exec (ident tm) (func tm) w1
      in w2\<lparr>debounceMap := (debounceMap w2)(ident tm := None)\<rparr>)"

text \<open>
  The event loop picks, among the timeouts that are due, the one due first, the older one
  on a tie.
\<close>

fun earlier :: "'f timer \<Rightarrow> 'f timer \<Rightarrow> bool" where
  "earlier a b = (fires_at a < fires_at b \<or> (fires_at a = fires_at b \<and> handle a \<le> handle b))"

fun earliest :: "'f timer list \<Rightarrow> 'f timer option" where
  "earliest [] = None"
| "earliest (tm # tms) =
     (case earliest tms of
        None \<Rightarrow> Some tm
      | Some m \<Rightarrow> if earlier tm m then Some tm else Some m)"

definition next_timer :: "('f, 'z) sched_scheme \<Rightarrow> 'f timer option" where
  "next_timer w = earliest (filter (\<lambda>tm. fires_at tm \<le> now w) (timers w))"

text \<open>
  The loop that runs every timeout that is due, with the callbacks' effect \<open>exec\<close>. A
  callback may schedule further timeouts, so the loop need not end: it returns \<open>None\<close>
  when it does not.
\<close>

partial_function (option) fire_due :: "('f \<Rightarrow> ('f, 'z) sched_scheme \<Rightarrow> ('f, 'z) sched_scheme)
    \<Rightarrow> ('f, 'z) sched_scheme \<Rightarrow> ('f, 'z) sched_scheme option" where
  "fire_due exec w =
     (case next_timer w of
        None \<Rightarrow> Some w
      | Some tm \<Rightarrow> fire_due exec (fire exec tm w))"

declare fire_due.simps [code]

text \<open>Time passes: the clock moves on by \<open>dt\<close> milliseconds and what has become due fires.\<close>

definition advance :: "('f \<Rightarrow> ('f, 'z) sched_scheme \<Rightarrow> ('f, 'z) sched_scheme) \<Rightarrow> int
    \<Rightarrow> ('f, 'z) sched_scheme \<Rightarrow> ('f, 'z) sched_scheme option" where
  "advance exec dt w = fire_due exec (w\<lparr>now := now w + dt\<rparr>)"


text \<open>
  Callbacks that leave the helper alone: running one changes neither the clock, nor the
  pending timeouts, nor \<open>debounceMap\<close>, nor the trace; whatever else it does to the state
  is free. \<open>opaque\<close> is the callback that does nothing at all.
\<close>

definition quiet :: "('f \<Rightarrow> ('f, 'z) sched_scheme \<Rightarrow> ('f, 'z) sched_scheme) \<Rightarrow> bool" where
  "quiet exec =
     (\<forall>f w. now (exec f w) = now w \<and> timers (exec f w) = timers w
        \<and> next_handle (exec f w) = next_handle w \<and> debounceMap (exec f w) = debounceMap w
        \<and> calls (exec f w) = calls w)"

definition opaque :: "'f \<Rightarrow> ('f, 'z) sched_scheme \<Rightarrow> ('f, 'z) sched_scheme" where
  "opaque f w = w"

text \<open>The fresh page: nothing scheduled, nothing run.\<close>

definition sched0 :: "int \<Rightarrow> 'f sched" where
  "sched0 t = \<lparr>now = t, timers = [], next_handle = 1, debounceMap = (\<lambda>_. None), calls = []\<rparr>"

subsection \<open>What the helper maintains\<close>

text \<open>
  The states the helper itself produces: timeout handles are not reused, every pending
  timeout is the one \<open>debounceMap\<close> records for its identifier, and a recorded handle
  belongs to no timeout of another identifier.
\<close>

definition consistent :: "('f, 'z) sched_scheme \<Rightarrow> bool" where
  "consistent w =
     (distinct (map handle (timers w))
      \<and> (\<forall>tm\<in>set (timers w). debounceMap w (ident tm) = Some (handle tm))
      \<and> (\<forall>k h. debounceMap w k = Some h \<longrightarrow>
            h < next_handle w \<and> (\<forall>tm\<in>set (timers w). handle tm = h \<longrightarrow> ident tm = k)))"

text \<open>The invocations recorded for one identifier: when, and which callback.\<close>

definition runs_of :: "string \<Rightarrow> (int \<times> string \<times> 'f) list \<Rightarrow> (int \<times> 'f) list" where
  "runs_of k cs = map (\<lambda>(t, _, f). (t, f)) (filter (\<lambda>(_, k', _). k' = k) cs)"

section \<open>Validation\<close>

text \<open>
  A validator returns \<open>string[] | null | undefined\<close>, at once or through a promise.
  \<open>awaited\<close> is what \<open>await valFunction(newValue)\<close> ends with: the value the call (or
  its promise) settles to, or a rejection, after which the code behind the \<open>await\<close> never
  runs.
\<close>

datatype valresult = VUndefined | VNull | VErrors "string list"

datatype awaited = Fulfilled valresult | Rejected

type_synonym validator = "jsval \<Rightarrow> awaited"

text \<open>
  \<open>ChangeableConfig\<close>: the optional \<open>validators\<close> and \<open>required\<close>; of
  \<open>onchange\<close> only whether it is there. The configurations built on it add the bound
  value and whether it was handed in as a signal (\<open>isSignal\<close>).
\<close>

record changeable_config =
  validators :: "validator list option"
  required :: "bool option"
  has_onchange :: bool

record valued_config = changeable_config +
  cfg_value :: jsval
  value_is_signal :: bool

record input_config = valued_config +
  cfg_debounce :: "int option"

record boolean_config = changeable_config +
  checked :: jsval
  checked_is_signal :: bool

definition truthy_flag :: "bool option \<Rightarrow> bool" where
  "truthy_flag b = (case b of None \<Rightarrow> False | Some t \<Rightarrow> t)"

text \<open>
  The state of one field: the \<open>errors\<close> signal, the continuations of the validator calls
  that are still waiting at their \<open>await\<close> (\<open>jobs\<close>, oldest first, each with the result
  it resumes with), and the values \<open>config.onchange\<close> has been called with.
\<close>

record 'f field_state = "'f sched" +
  errors :: "string list"
  jobs :: "awaited list"
  changes :: "jsval list"

definition required_message :: string where
  "required_message = ''This field is required.''"

text \<open>The state in which a factory starts: \<open>errors = signal([])\<close> on a page with nothing pending.\<close>

definition fresh_field :: "int \<Rightarrow> 'f field_state" where
  "fresh_field t =
     \<lparr>now = t, timers = [], next_handle = 1, debounceMap = (\<lambda>_. None), calls = [],
      errors = [], jobs = [], changes = []\<rparr>"

text \<open>
  \<open>config.validators?.forEach(async valFunction => { const valErrors = await
  valFunction(newValue); ... })\<close>: \<open>forEach\<close> calls the async arrow function once per
  validator, in order; each call runs \<open>valFunction(newValue)\<close> and stops at the
  \<open>await\<close>. Nothing behind an \<open>await\<close> runs before \<open>validate\<close> has returned.
\<close>

definition start_validators :: "validator list option \<Rightarrow> jsval \<Rightarrow> ('f, 'z) field_state_scheme
    \<Rightarrow> ('f, 'z) field_state_scheme" where
  "start_validators vs newValue st =
     (case vs of None \<Rightarrow> st | Some l \<Rightarrow> st\<lparr>jobs := jobs st @ map (\<lambda>valFunction. valFunction newValue) l\<rparr>)"

text \<open>
  The code behind the \<open>await\<close>: \<open>if (valErrors) { errors.value =
  errors.value.concat(valErrors); }\<close>. An array is truthy, also the empty one.
\<close>

definition resume :: "awaited \<Rightarrow> ('f, 'z) field_state_scheme \<Rightarrow> ('f, 'z) field_state_scheme" where
  "resume r st =
     (case r of
        Fulfilled (VErrors valErrors) \<Rightarrow> st\<lparr>errors := errors st @ valErrors\<rparr>
      | Fulfilled _ \<Rightarrow> st
      | Rejected \<Rightarrow> st)"

text \<open>All waiting continuations resume, in the order in which the validators were called.\<close>

definition settle :: "('f, 'z) field_state_scheme \<Rightarrow> ('f, 'z) field_state_scheme" where
  "settle st = fold resume (jobs st) (st\<lparr>jobs := []\<rparr>)"

subsection \<open>Textarea\<close>

definition textarea_validate :: "'c valued_config_scheme \<Rightarrow> jsval \<Rightarrow> ('f, 'z) field_state_scheme
    \<Rightarrow> ('f, 'z) field_state_scheme" where
  "textarea_validate config newValue st =
     (let st1 = st\<lparr>errors := []\<rparr>;
          st2 = start_validators (validators config) newValue st1
      in if truthy_flag (required config)
            \<and> (newValue = JNull \<or> newValue = JUndefined \<or> newValue = JStr [])
         then st2\<lparr>errors := errors st2 @ [required_message]\<rparr>
         else st2)"

text \<open>
  The factory: \<open>errors = signal([])\<close>, then \<open>validate\<close> on the initial value (for a
  signal after subscribing \<open>validate\<close> to it).
\<close>

definition textarea :: "'c valued_config_scheme \<Rightarrow> int \<Rightarrow> 'f field_state" where
  "textarea config t = textarea_validate config (cfg_value config) (fresh_field t)"

text \<open>The subscription \<open>asSignal(config.value).subscribe(validate)\<close>: a write to the bound signal.\<close>

definition textarea_value_written :: "'c valued_config_scheme \<Rightarrow> jsval \<Rightarrow> ('f, 'z) field_state_scheme
    \<Rightarrow> ('f, 'z) field_state_scheme" where
  "textarea_value_written config newValue st =
     (if value_is_signal config then textarea_validate config newValue st else st)"

text \<open>\<open>oninput\<close> and \<open>onchange\<close> of the textarea have the same body.\<close>

definition textarea_oninput :: "'c valued_config_scheme \<Rightarrow> string \<Rightarrow> ('f, 'z) field_state_scheme
    \<Rightarrow> ('f, 'z) field_state_scheme" where
  "textarea_oninput config v st =
     (let st1 = (if \<not> value_is_signal config then textarea_validate config (JStr v) st else st)
      in if has_onchange config then st1\<lparr>changes := changes st1 @ [JStr v]\<rparr> else st1)"

subsection \<open>Checkbox and toggle\<close>

definition checkbox_validate :: "'c boolean_config_scheme \<Rightarrow> jsval \<Rightarrow> ('f, 'z) field_state_scheme
    \<Rightarrow> ('f, 'z) field_state_scheme" where
  "checkbox_validate config newValue st =
     (let st1 = st\<lparr>errors := []\<rparr>;
          st2 = start_validators (validators config) newValue st1
      in if truthy_flag (required config)
            \<and> (newValue = JNull \<or> newValue = JUndefined \<or> newValue = JBool False)
         then st2\<lparr>errors := errors st2 @ [required_message]\<rparr>
         else st2)"

text \<open>
  The factory of the checkbox runs \<open>validate\<close> on the initial value and then turns that
  value into the string of the \<open>checked\<close> attribute: \<open>config.checked.toString()\<close>, for a
  signal \<open>compute(c => c.toString(), sig)\<close>, which calls the function on the signal's
  value. \<open>null\<close> and \<open>undefined\<close> have no \<open>toString\<close>: for them the call throws a
  \<open>TypeError\<close>, after \<open>validate\<close> has run, and the factory returns no checkbox.
\<close>

datatype js_error = TypeError

definition checkbox :: "'c boolean_config_scheme \<Rightarrow> int \<Rightarrow> js_error + 'f field_state" where
  "checkbox config t =
     (let st = checkbox_validate config (checked config) (fresh_field t)
      in if nullish (checked config) then Inl TypeError else Inr st)"

text \<open>
  A write to the bound signal: \<open>validate\<close>, subscribed first, runs; then the function of
  the derived signal is called on the new value and throws for \<open>null\<close> and \<open>undefined\<close>.
  The error, if there is one, comes with the state \<open>validate\<close> has left.
\<close>

definition checkbox_checked_written :: "'c boolean_config_scheme \<Rightarrow> jsval \<Rightarrow> ('f, 'z) field_state_scheme
    \<Rightarrow> js_error option \<times> ('f, 'z) field_state_scheme" where
  "checkbox_checked_written config newValue st =
     (if checked_is_signal config
      then (if nullish newValue then Some TypeError else None, checkbox_validate config newValue st)
      else (None, st))"

text \<open>\<open>onclick\<close>: \<open>c\<close> is the \<open>checked\<close> property of the DOM element, a boolean.\<close>

definition checkbox_onclick :: "'c boolean_config_scheme \<Rightarrow> bool \<Rightarrow> ('f, 'z) field_state_scheme
    \<Rightarrow> ('f, 'z) field_state_scheme" where
  "checkbox_onclick config c st =
     (let st1 = (if \<not> checked_is_signal config then checkbox_validate config (JBool c) st else st)
      in if has_onchange config then st1\<lparr>changes := changes st1 @ [JBool c]\<rparr> else st1)"

text \<open>The toggle hands \<open>config.checked\<close> to the element as it is: nothing is called on it.\<close>

definition toggle_validate :: "'c boolean_config_scheme \<Rightarrow> jsval \<Rightarrow> ('f, 'z) field_state_scheme
    \<Rightarrow> ('f, 'z) field_state_scheme" where
  "toggle_validate config newValue st =
     (let st1 = st\<lparr>errors := []\<rparr>;
          st2 = start_validators (validators config) newValue st1
      in if truthy_flag (required config)
            \<and> (newValue = JNull \<or> newValue = JUndefined \<or> newValue = JBool False)
         then st2\<lparr>errors := errors st2 @ [required_message]\<rparr>
         else st2)"

definition toggle :: "'c boolean_config_scheme \<Rightarrow> int \<Rightarrow> 'f field_state" where
  "toggle config t = toggle_validate config (checked config) (fresh_field t)"

definition toggle_checked_written :: "'c boolean_config_scheme \<Rightarrow> jsval \<Rightarrow> ('f, 'z) field_state_scheme
    \<Rightarrow> ('f, 'z) field_state_scheme" where
  "toggle_checked_written config newValue st =
     (if checked_is_signal config then toggle_validate config newValue st else st)"

definition toggle_onclick :: "'c boolean_config_scheme \<Rightarrow> bool \<Rightarrow> ('f, 'z) field_state_scheme
    \<Rightarrow> ('f, 'z) field_state_scheme" where
  "toggle_onclick config c st =
     (let st1 = (if \<not> checked_is_signal config then toggle_validate config (JBool c) st else st)
      in if has_onchange config then st1\<lparr>changes := changes st1 @ [JBool c]\<rparr> else st1)"

subsection \<open>Input\<close>

text \<open>
  The closures the input hands to \<open>debounce\<close>: \<open>() => validate(newValue)\<close>,
  \<open>() => config.onchange(e.target.value)\<close> and \<open>() => value.value = e.target.value\<close>.
  The first has captured its argument; the last two read \<open>e.target.value\<close>, the text the
  element holds, when they run.
\<close>

datatype task = Validate jsval | OnChange | SetValue

text \<open>
  The state of an input: \<open>touched\<close>, \<open>lastChange\<close>, \<open>inputId\<close>, the signal \<open>value\<close>
  (\<open>cur_value\<close>) and the text the \<open>input\<close> element holds (\<open>target_value\<close>).
\<close>

record input_state = "task field_state" +
  touched :: bool
  lastChange :: int
  inputId :: string
  cur_value :: jsval
  target_value :: string

text \<open>\<open>debounce\<close> calls its callback only on the path of a falsy delay.\<close>

lemma debounce_cong [fundef_cong]:
  "\<lbrakk>k = k'; f = f'; delay = delay'; w = w';
    \<And>x. (case delay' of None \<Rightarrow> 0 | Some d \<Rightarrow> d) = 0 \<Longrightarrow> exec f' x = exec' f' x\<rbrakk>
   \<Longrightarrow> debounce exec k f delay w = debounce exec' k' f' delay' w'"
  by (auto simp: debounce_def invoke_def Let_def split: option.splits)

text \<open>
  \<open>validate\<close> of the input, and what each of the three closures does when it is called.
  A write to \<open>value\<close> reaches \<open>validate\<close> when \<open>config.value\<close> is a signal, to which
  the factory has subscribed it.
\<close>

function input_validate :: "'c input_config_scheme \<Rightarrow> jsval \<Rightarrow> input_state \<Rightarrow> input_state"
  and input_exec :: "'c input_config_scheme \<Rightarrow> task \<Rightarrow> input_state \<Rightarrow> input_state" where
  "input_validate config newValue st =
     (let st1 = st\<lparr>errors := []\<rparr> in
      if truthy_num (cfg_debounce config) \<and> now st1 - lastChange st1 < the (cfg_debounce config)
      then debounce (input_exec config) (inputId st1 @ ''validate'') (Validate newValue)
             (cfg_debounce config) st1
      else
        (let st2 = start_validators (validators config) newValue st1
         in if truthy_flag (required config)
               \<and> (newValue = JNull \<or> newValue = JUndefined \<or> newValue = JStr [])
               \<and> touched st2
            then st2\<lparr>errors := errors st2 @ [required_message]\<rparr>
            else st2))"
| "input_exec config (Validate newValue) st = input_validate config newValue st"
| "input_exec config OnChange st = st\<lparr>changes := changes st @ [JStr (target_value st)]\<rparr>"
| "input_exec config SetValue st =
     (let st1 = st\<lparr>cur_value := JStr (target_value st)\<rparr>
      in if value_is_signal config then input_validate config (JStr (target_value st)) st1 else st1)"
  by pat_completeness auto
termination
  by (relation "measure (\<lambda>s. case s of Inl _ \<Rightarrow> 0 | Inr _ \<Rightarrow> Suc 0)")
     (auto simp: truthy_num_def split: option.splits)

text \<open>
  The factory: \<open>touched = signal(false)\<close>, \<open>inputId = v4()\<close>, \<open>lastChange = 0\<close>, then
  \<open>validate\<close> on the initial value; a plain \<open>config.value\<close> is wrapped afterwards in a
  signal of its own, \<open>signal(config.value ?? "")\<close>. The text of the element is read only
  by closures that an edit makes, after the edit has set it; it starts empty here.
\<close>

definition input :: "'c input_config_scheme \<Rightarrow> string \<Rightarrow> int \<Rightarrow> input_state" where
  "input config uuid t =
     (let st = input_validate config (cfg_value config)
                 \<lparr>now = t, timers = [], next_handle = 1, debounceMap = (\<lambda>_. None), calls = [],
                  errors = [], jobs = [], changes = [],
                  touched = False, lastChange = 0, inputId = uuid, cur_value = cfg_value config,
                  target_value = []\<rparr>
      in if value_is_signal config then st
         else st\<lparr>cur_value := coalesce (cfg_value config) (JStr [])\<rparr>)"

text \<open>
  \<open>oninput\<close> and \<open>onchange\<close> of the input have the same body. The event comes from an
  edit that has left the text \<open>v\<close> in the element.
\<close>

definition input_oninput :: "'c input_config_scheme \<Rightarrow> string \<Rightarrow> input_state \<Rightarrow> input_state" where
  "input_oninput config v st =
     (let st0 = st\<lparr>target_value := v\<rparr>;
          st1 = st0\<lparr>touched := True, lastChange := now st0\<rparr>;
          st2 = (if \<not> value_is_signal config then input_validate config (JStr v) st1 else st1);
          st3 = (if has_onchange config
                 then debounce (input_exec config) (inputId st2 @ ''change'') OnChange
                        (cfg_debounce config) st2
                 else st2)
      in debounce (input_exec config) (inputId st3 @ ''value'') SetValue (cfg_debounce config) st3)"

text \<open>
  Modelled from the spec: the reactive value notifies its subscribers synchronously and in
  subscription order, and the element is bound to \<open>value\<close> by the rendering runtime. A
  write of \<open>v\<close> to a signal handed in as \<open>config.value\<close> therefore runs \<open>validate\<close>,
  subscribed by the factory, and then the runtime puts the text \<open>shown\<close> it renders \<open>v\<close>
  as into the element.
\<close>

definition input_value_written :: "'c input_config_scheme \<Rightarrow> jsval \<Rightarrow> string \<Rightarrow> input_state
    \<Rightarrow> input_state" where
  "input_value_written config v shown st =
     (if value_is_signal config
      then (input_validate config v (st\<lparr>cur_value := v\<rparr>))\<lparr>target_value := shown\<rparr>
      else st)"

text \<open>One of the input's timeouts fires.\<close>

definition input_timeout :: "'c input_config_scheme \<Rightarrow> task timer \<Rightarrow> input_state \<Rightarrow> input_state" where
  "input_timeout config tm st = fire (input_exec config) tm st"

text \<open>
  What happens to an input on the page: an edit, a write to the signal it is bound to, time
  passing (with the timeouts that become due running the input's closures).
\<close>

datatype input_event = Edit string | Written jsval string | Wait int

fun input_step :: "'c input_config_scheme \<Rightarrow> input_event \<Rightarrow> input_state \<Rightarrow> input_state option" where
  "input_step config (Edit v) st = Some (input_oninput config v st)"
| "input_step config (Written v shown) st = Some (input_value_written config v shown st)"
| "input_step config (Wait dt) st = advance (input_exec config) dt st"

fun input_run :: "'c input_config_scheme \<Rightarrow> input_event list \<Rightarrow> input_state \<Rightarrow> input_state option" where
  "input_run config [] st = Some st"
| "input_run config (ev # evs) st =
     (case input_step config ev st of
        None \<Rightarrow> None
      | Some st' \<Rightarrow> input_run config evs st')"

text \<open>
  What a pass is expected to collect from the validators: the arrays they settle to, in
  validator order.
\<close>

definition result_errors :: "awaited \<Rightarrow> string list" where
  "result_errors r = (case r of Fulfilled (VErrors es) \<Rightarrow> es | _ \<Rightarrow> [])"

definition validator_errors :: "validator list option \<Rightarrow> jsval \<Rightarrow> string list" where
  "validator_errors vs x = (case vs of None \<Rightarrow> [] | Some l \<Rightarrow> concat (map (\<lambda>v. result_errors (v x)) l))"

text \<open>The test that postpones a pass of the input.\<close>

definition postponed :: "'c input_config_scheme \<Rightarrow> input_state \<Rightarrow> bool" where
  "postponed config st =
     (truthy_num (cfg_debounce config) \<and> now st - lastChange st < the (cfg_debounce config))"

section \<open>Searchable select\<close>

subsection \<open>Numbers, strings and arrays as the handlers use them\<close>

text \<open>
  The highlight index is a JavaScript number. The handlers add to it, subtract from it and
  take remainders by an array length; a remainder by \<open>0\<close> is \<open>NaN\<close>, and \<open>NaN\<close>
  stays \<open>NaN\<close> through every operation. \<open>%\<close> truncates: the result has the sign of
  the dividend. (\<open>-0\<close> is not told apart from \<open>0\<close>: the two are \<open>===\<close> and index
  the same element.)
\<close>

datatype jsnum = Num int | NaN

fun js_add :: "jsnum \<Rightarrow> jsnum \<Rightarrow> jsnum" where
  "js_add (Num a) (Num b) = Num (a + b)"
| "js_add _ _ = NaN"

fun js_sub :: "jsnum \<Rightarrow> jsnum \<Rightarrow> jsnum" where
  "js_sub (Num a) (Num b) = Num (a - b)"
| "js_sub _ _ = NaN"

fun js_rem :: "jsnum \<Rightarrow> jsnum \<Rightarrow> jsnum" where
  "js_rem (Num a) (Num b) = (if b = 0 then NaN else Num (sgn a * (\<bar>a\<bar> mod \<bar>b\<bar>)))"
| "js_rem _ _ = NaN"

text \<open>\<open>xs[i]\<close>: \<open>undefined\<close> (here \<open>None\<close>) unless \<open>i\<close> is an index of the array.\<close>

fun js_index :: "'a list \<Rightarrow> jsnum \<Rightarrow> 'a option" where
  "js_index xs (Num i) = (if 0 \<le> i \<and> i < int (length xs) then Some (xs ! nat i) else None)"
| "js_index xs NaN = None"

text \<open>\<open>xs.findIndex(p)\<close>: the first index whose element satisfies \<open>p\<close>, or \<open>-1\<close>.\<close>

fun findIndex_from :: "('a \<Rightarrow> bool) \<Rightarrow> 'a list \<Rightarrow> int \<Rightarrow> int" where
  "findIndex_from p [] i = - 1"
| "findIndex_from p (x # xs) i = (if p x then i else findIndex_from p xs (i + 1))"

definition findIndex :: "('a \<Rightarrow> bool) \<Rightarrow> 'a list \<Rightarrow> int" where
  "findIndex p xs = findIndex_from p xs 0"

text \<open>
  A string of the select (an option's name, the search text) is the list of its code
  units, of whatever type \<open>'c\<close>. \<open>s.startsWith(p)\<close> and \<open>s.includes(p)\<close> compare code
  units: \<open>p\<close> occurs in \<open>s\<close> as a contiguous run.
\<close>

fun startsWith :: "'c list \<Rightarrow> 'c list \<Rightarrow> bool" where
  "startsWith s [] = True"
| "startsWith [] (p # ps) = False"
| "startsWith (c # cs) (p # ps) = (c = p \<and> startsWith cs ps)"

fun includes_str :: "'c list \<Rightarrow> 'c list \<Rightarrow> bool" where
  "includes_str [] p = (p = [])"
| "includes_str (c # cs) p = (startsWith (c # cs) p \<or> includes_str cs p)"

text \<open>
  \<open>s.toLowerCase()\<close> is the platform's, with the case tables of Unicode behind it. It is
  a parameter of everything below that filters, \<open>lower\<close>, and no property of it is used.
  The examples are over ASCII text, with characters for code units; there \<open>toLowerCase\<close>
  turns the letters \<open>A\<close> to \<open>Z\<close> into \<open>a\<close> to \<open>z\<close> and leaves every other character:
  \<open>lower_ascii\<close>.
\<close>

definition lower_ascii_char :: "char \<Rightarrow> char" where
  "lower_ascii_char c =
     (let n = (of_char c :: nat) in if 65 \<le> n \<and> n \<le> 90 then char_of (n + 32) else c)"

definition lower_ascii :: "string \<Rightarrow> string" where
  "lower_ascii s = map lower_ascii_char s"

subsection \<open>State and signals\<close>

text \<open>
  \<open>SelectOption\<close>: the \<open>id\<close>, any value, and the \<open>name\<close>, which the component lowers,
  searches and shows as the text of the search box: a string. The image fields only
  reach the rendering.
\<close>

record 'c select_option =
  opt_name :: "'c list"
  opt_id :: jsval

text \<open>
  The signals of one searchable select, by their names in the factory (\<open>sel_value\<close> is
  \<open>value\<close>), and the number of \<open>setTimeout\<close> callbacks of the key handler that have not
  run yet.
\<close>

record 'c select_state =
  options :: "'c select_option list"
  sel_value :: jsval
  search :: "'c list"
  optionsVisible :: bool
  filtered :: "'c select_option list"
  selectedIndex :: jsnum
  selectedId :: jsval
  pending_reads :: nat

text \<open>\<open>updateSelectedId\<close>: \<open>selectedId.value = filtered.value[selectedIndex.value]?.id\<close>.\<close>

definition updateSelectedId :: "'c select_state \<Rightarrow> 'c select_state" where
  "updateSelectedId st =
     st\<lparr>selectedId := (case js_index (filtered st) (selectedIndex st) of
                          None \<Rightarrow> JUndefined
                        | Some opt \<Rightarrow> opt_id opt)\<rparr>"

text \<open>
  Modelled from the spec: the reactive value of the rendering runtime, which is not part of
  this repository's sources. A signal is a cell; a write stores the new value and notifies
  the subscribers synchronously, in subscription order, on every write. Each \<open>set_\<close>
  function below is the write to one signal followed by the callbacks the factory has
  subscribed to it (\<open>filtered\<close> has a subscriber too, \<open>updateSelectedId\<close>, but no line
  of the source writes it after the factory). Callbacks that only render (\<open>compute\<close>,
  \<open>when\<close>, \<open>signalMap\<close>) and subscribers from outside the component are not part of
  the state.
\<close>

definition set_selectedIndex :: "jsnum \<Rightarrow> 'c select_state \<Rightarrow> 'c select_state" where
  "set_selectedIndex i st = updateSelectedId (st\<lparr>selectedIndex := i\<rparr>)"

text \<open>
  \<open>filter\<close>: \<open>selectedIndex.value = options.value.findIndex(o =>
  o.name.toLowerCase().includes(search.value.toLowerCase()))\<close>. The line that would
  write \<open>filtered\<close> is commented out in the source.
\<close>

definition matches :: "('c list \<Rightarrow> 'c list) \<Rightarrow> 'c list \<Rightarrow> 'c select_option \<Rightarrow> bool" where
  "matches lower text opt = includes_str (lower (opt_name opt)) (lower text)"

definition filter_index :: "('c list \<Rightarrow> 'c list) \<Rightarrow> 'c select_state \<Rightarrow> jsnum" where
  "filter_index lower st = Num (findIndex (matches lower (search st)) (options st))"

definition filter_sel :: "('c list \<Rightarrow> 'c list) \<Rightarrow> 'c select_state \<Rightarrow> 'c select_state" where
  "filter_sel lower st = set_selectedIndex (filter_index lower st) st"

definition set_search :: "('c list \<Rightarrow> 'c list) \<Rightarrow> 'c list \<Rightarrow> 'c select_state \<Rightarrow> 'c select_state" where
  "set_search lower s st = filter_sel lower (st\<lparr>search := s\<rparr>)"

definition set_options :: "('c list \<Rightarrow> 'c list) \<Rightarrow> 'c select_option list \<Rightarrow> 'c select_state \<Rightarrow> 'c select_state" where
  "set_options lower os st = filter_sel lower (st\<lparr>options := os\<rparr>)"

text \<open>
  The subscriber of \<open>value\<close>: \<open>search.value = options.value.find(o => o.id ===
  newVal)?.name ?? ""\<close>.
\<close>

definition name_for :: "jsval \<Rightarrow> 'c select_option list \<Rightarrow> 'c list" where
  "name_for v os = (case find (\<lambda>opt. opt_id opt = v) os of None \<Rightarrow> [] | Some opt \<Rightarrow> opt_name opt)"

definition set_value :: "('c list \<Rightarrow> 'c list) \<Rightarrow> jsval \<Rightarrow> 'c select_state \<Rightarrow> 'c select_state" where
  "set_value lower newVal st =
     (let st1 = st\<lparr>sel_value := newVal\<rparr>
      in set_search lower (name_for newVal (options st1)) st1)"

definition set_optionsVisible :: "bool \<Rightarrow> 'c select_state \<Rightarrow> 'c select_state" where
  "set_optionsVisible b st = st\<lparr>optionsVisible := b\<rparr>"

subsection \<open>The factory and the handlers\<close>

text \<open>\<open>SearchableSelectConfig\<close>: \<open>options\<close> and \<open>value\<close>, each replaced by a default when absent.\<close>

record 'c select_config =
  cfg_options :: "'c select_option list option"
  cfg_sel_value :: "jsval option"

text \<open>
  \<open>searchableSelect\<close>, in the order of the source: the first \<open>filter()\<close> runs before
  anything is subscribed to \<open>selectedIndex\<close>; \<open>selectedId\<close> starts as
  \<open>options.value[0]?.id ?? null\<close>, and \<open>updateSelectedId()\<close> is called once after the
  subscriptions.
\<close>

definition searchableSelect :: "('c list \<Rightarrow> 'c list) \<Rightarrow> 'c select_config \<Rightarrow> 'c select_state" where
  "searchableSelect lower config =
     (let opts = (case cfg_options config of None \<Rightarrow> [] | Some os \<Rightarrow> os);
          v = (case cfg_sel_value config of None \<Rightarrow> JNull | Some x \<Rightarrow> x);
          st0 = \<lparr>options = opts, sel_value = v, search = name_for v opts,
                 optionsVisible = False, filtered = opts, selectedIndex = Num 0,
                 selectedId = JNull, pending_reads = 0\<rparr>;
          st1 = st0\<lparr>selectedIndex := filter_index lower st0\<rparr>;
          st2 = st1\<lparr>selectedId := coalesce (case js_index opts (Num 0) of
                                                 None \<Rightarrow> JUndefined
                                               | Some opt \<Rightarrow> opt_id opt) JNull\<rparr>
      in updateSelectedId st2)"

text \<open>A \<open>keydown\<close> event: \<open>e.key\<close> and \<open>e.keyCode\<close>.\<close>

record key_event =
  key :: string
  keyCode :: int

definition select_onkeydown :: "('c list \<Rightarrow> 'c list) \<Rightarrow> key_event \<Rightarrow> 'c select_state \<Rightarrow> 'c select_state" where
  "select_onkeydown lower e st =
     (if key e = ''Enter'' then
        (let selectedOption = js_index (filtered st) (selectedIndex st);
             st1 = set_value lower (coalesce (case selectedOption of None \<Rightarrow> JUndefined
                                                              | Some opt \<Rightarrow> opt_id opt)
                                       (sel_value st)) st;
             st2 = set_search lower (case selectedOption of None \<Rightarrow> search st1
                                                    | Some opt \<Rightarrow> opt_name opt) st1
         in set_optionsVisible False st2)
      else if key e = ''ArrowDown'' then
        set_selectedIndex
          (js_rem (js_add (selectedIndex st) (Num 1)) (Num (int (length (filtered st))))) st
      else if key e = ''ArrowUp'' then
        set_selectedIndex
          (js_rem (js_add (js_sub (selectedIndex st) (Num 1)) (Num (int (length (filtered st)))))
                  (Num (int (length (filtered st))))) st
      else if key e = ''Escape'' \<or> key e = ''Tab'' then set_optionsVisible False st
      else if (32 < keyCode e \<and> keyCode e < 126) \<or> key e = ''Backspace''
        then st\<lparr>pending_reads := Suc (pending_reads st)\<rparr>
      else st)"

text \<open>
  The callback of that \<open>setTimeout\<close>, \<open>search.value = e.target.value\<close>: \<open>text\<close> is what
  the DOM input holds when it runs.
\<close>

definition select_timeout :: "('c list \<Rightarrow> 'c list) \<Rightarrow> 'c list \<Rightarrow> 'c select_state \<Rightarrow> 'c select_state" where
  "select_timeout lower text st =
     (if 0 < pending_reads st
      then set_search lower text (st\<lparr>pending_reads := pending_reads st - 1\<rparr>)
      else st)"

definition select_onfocus :: "'c select_state \<Rightarrow> 'c select_state" where
  "select_onfocus st = set_optionsVisible True st"

definition dropdown_onclick :: "'c select_state \<Rightarrow> 'c select_state" where
  "dropdown_onclick st = set_optionsVisible (\<not> optionsVisible st) st"

text \<open>\<open>onclick\<close> of \<open>searchSelectOption\<close>, for the option the element was built from.\<close>

definition option_onclick :: "('c list \<Rightarrow> 'c list) \<Rightarrow> 'c select_option \<Rightarrow> 'c select_state \<Rightarrow> 'c select_state" where
  "option_onclick lower opt st =
     (let st1 = set_value lower (opt_id opt) st;
          st2 = set_search lower (opt_name opt) st1
      in set_optionsVisible False st2)"

text \<open>
  Everything that can happen to a select after the factory has run. The options that can
  be clicked are those rendered, one per element of \<open>filtered\<close>; \<open>value\<close> and
  \<open>options\<close> belong to the caller, who may write them.
\<close>

datatype 'c select_event =
    Focus
  | KeyDown key_event
  | DropdownClick
  | OptionClick nat
  | Timeout "'c list"
  | ValueWritten jsval
  | OptionsWritten "'c select_option list"

fun select_step :: "('c list \<Rightarrow> 'c list) \<Rightarrow> 'c select_event \<Rightarrow> 'c select_state \<Rightarrow> 'c select_state" where
  "select_step lower Focus st = select_onfocus st"
| "select_step lower (KeyDown e) st = select_onkeydown lower e st"
| "select_step lower DropdownClick st = dropdown_onclick st"
| "select_step lower (OptionClick n) st =
     (if n < length (filtered st) then option_onclick lower (filtered st ! n) st else st)"
| "select_step lower (Timeout text) st = select_timeout lower text st"
| "select_step lower (ValueWritten v) st = set_value lower v st"
| "select_step lower (OptionsWritten os) st = set_options lower os st"

definition select_run :: "('c list \<Rightarrow> 'c list) \<Rightarrow> 'c select_config \<Rightarrow> 'c select_event list \<Rightarrow> 'c select_state" where
  "select_run lower config evs = fold (select_step lower) evs (searchableSelect lower config)"

definition arrowDown :: key_event where
  "arrowDown = \<lparr>key = ''ArrowDown'', keyCode = 40\<rparr>"

definition arrowUp :: key_event where
  "arrowUp = \<lparr>key = ''ArrowUp'', keyCode = 38\<rparr>"

definition enter :: key_event where
  "enter = \<lparr>key = ''Enter'', keyCode = 13\<rparr>"

section \<open>Properties of the debounce helper\<close>





lemma quietD:
  assumes "quiet exec"
  shows "now (exec f w) = now w" and "timers (exec f w) = timers w"
    and "next_handle (exec f w) = next_handle w" and "debounceMap (exec f w) = debounceMap w"
    and "calls (exec f w) = calls w"
  using assms unfolding quiet_def by blast+

lemma quiet_opaque: "quiet opaque"
  by (simp add: quiet_def opaque_def)


lemma consistentD:
  assumes "consistent w"
  shows "distinct (map handle (timers w))"
    and "\<And>tm. tm \<in> set (timers w) \<Longrightarrow> debounceMap w (ident tm) = Some (handle tm)"
    and "\<And>k h. debounceMap w k = Some h \<Longrightarrow> h < next_handle w"
    and "\<And>k h tm. debounceMap w k = Some h \<Longrightarrow> tm \<in> set (timers w) \<Longrightarrow> handle tm = h
          \<Longrightarrow> ident tm = k"
  using assms unfolding consistent_def by blast+

lemma consistentI:
  assumes "distinct (map handle (timers w))"
    and "\<And>tm. tm \<in> set (timers w) \<Longrightarrow> debounceMap w (ident tm) = Some (handle tm)"
    and "\<And>k h. debounceMap w k = Some h \<Longrightarrow> h < next_handle w"
    and "\<And>k h tm. debounceMap w k = Some h \<Longrightarrow> tm \<in> set (timers w) \<Longrightarrow> handle tm = h
          \<Longrightarrow> ident tm = k"
  shows "consistent w"
  unfolding consistent_def using assms by blast







lemma runs_of_append [simp]: "runs_of k (xs @ ys) = runs_of k xs @ runs_of k ys"
  by (simp add: runs_of_def)

lemma runs_of_single [simp]: "runs_of k [(t, k', f)] = (if k' = k then [(t, f)] else [])"
  by (simp add: runs_of_def)





lemma consistent_now [simp]: "consistent (w\<lparr>now := t\<rparr>) = consistent w"
  by (simp add: consistent_def)




text \<open>Rescheduling in a consistent state replaces the pending timeout of the identifier.\<close>

lemma reschedule_shape:
  "reschedule k f d w
     = w\<lparr>timers := (case debounceMap w k of
                      Some h \<Rightarrow> filter (\<lambda>tm. handle tm \<noteq> h) (timers w)
                    | None \<Rightarrow> timers w)
                   @ [\<lparr>handle = next_handle w, due = now w + d, fires_at = now w + timer_delay d,
            ident = k, func = f\<rparr>],
         next_handle := Suc (next_handle w),
         debounceMap := (debounceMap w)(k \<mapsto> next_handle w)\<rparr>"
  by (cases "debounceMap w k") (simp_all add: reschedule_def setTimeout_def clearTimeout_def)

lemma reschedule_cleared:
  assumes "consistent w"
  shows "(case debounceMap w k of
            Some h \<Rightarrow> filter (\<lambda>tm. handle tm \<noteq> h) (timers w)
          | None \<Rightarrow> timers w)
         = filter (\<lambda>tm. ident tm \<noteq> k) (timers w)"
proof (cases "debounceMap w k")
  case None
  have "ident tm \<noteq> k" if "tm \<in> set (timers w)" for tm
    using consistentD(2) [OF assms that] None by auto
  then have "filter (\<lambda>tm. ident tm \<noteq> k) (timers w) = timers w"
    by (simp add: filter_id_conv)
  with None show ?thesis by simp
next
  case (Some h)
  have "(handle tm \<noteq> h) = (ident tm \<noteq> k)" if "tm \<in> set (timers w)" for tm
    using consistentD(2) [OF assms that] consistentD(4) [OF assms Some that] Some by auto
  then have "filter (\<lambda>tm. handle tm \<noteq> h) (timers w) = filter (\<lambda>tm. ident tm \<noteq> k) (timers w)"
    by (intro filter_cong refl)
  with Some show ?thesis by simp
qed

lemma reschedule_timers:
  assumes "consistent w"
  shows "timers (reschedule k f d w)
       = filter (\<lambda>tm. ident tm \<noteq> k) (timers w)
         @ [\<lparr>handle = next_handle w, due = now w + d, fires_at = now w + timer_delay d,
            ident = k, func = f\<rparr>]"
  by (simp add: reschedule_shape reschedule_cleared [OF assms])


lemma reschedule_calls: "calls (reschedule k f d w) = calls w"
  by (simp add: reschedule_shape)

lemma reschedule_next: "next_handle (reschedule k f d w) = Suc (next_handle w)"
  by (simp add: reschedule_shape)

lemma reschedule_map: "debounceMap (reschedule k f d w) = (debounceMap w)(k \<mapsto> next_handle w)"
  by (simp add: reschedule_shape)

lemma consistent_reschedule:
  assumes "consistent w"
  shows "consistent (reschedule k f d w)"
proof (rule consistentI)
  have lt: "handle x < next_handle w" if "x \<in> set (timers w)" for x
    using consistentD(3) [OF assms consistentD(2) [OF assms that]] .
  have "distinct (map handle (filter (\<lambda>tm. ident tm \<noteq> k) (timers w)))"
    using consistentD(1) [OF assms] by (simp add: distinct_map_filter)
  moreover have "next_handle w \<notin> handle ` set (timers w)"
  proof
    assume "next_handle w \<in> handle ` set (timers w)"
    then obtain x where "x \<in> set (timers w)" "handle x = next_handle w" by auto
    with lt [of x] show False by simp
  qed
  ultimately show "distinct (map handle (timers (reschedule k f d w)))"
    by (auto simp: reschedule_timers [OF assms])
next
  fix x assume "x \<in> set (timers (reschedule k f d w))"
  then consider "x \<in> set (timers w)" "ident x \<noteq> k"
    | "x = \<lparr>handle = next_handle w, due = now w + d, fires_at = now w + timer_delay d,
            ident = k, func = f\<rparr>"
    by (auto simp: reschedule_timers [OF assms])
  then show "debounceMap (reschedule k f d w) (ident x) = Some (handle x)"
  proof cases
    case 1
    then show ?thesis using consistentD(2) [OF assms 1(1)] by (simp add: reschedule_map)
  next
    case 2
    then show ?thesis by (simp add: reschedule_map)
  qed
next
  fix k' h assume "debounceMap (reschedule k f d w) k' = Some h"
  then have "h = next_handle w \<or> debounceMap w k' = Some h"
    by (auto simp: reschedule_map split: if_splits)
  then show "h < next_handle (reschedule k f d w)"
    using consistentD(3) [OF assms, of k' h] by (auto simp: reschedule_next)
next
  fix k' h x
  assume m: "debounceMap (reschedule k f d w) k' = Some h"
    and x: "x \<in> set (timers (reschedule k f d w))" and h: "handle x = h"
  have lt: "handle y < next_handle w" if "y \<in> set (timers w)" for y
    using consistentD(3) [OF assms consistentD(2) [OF assms that]] .
  from x consider "x \<in> set (timers w)" "ident x \<noteq> k"
    | "x = \<lparr>handle = next_handle w, due = now w + d, fires_at = now w + timer_delay d,
            ident = k, func = f\<rparr>"
    by (auto simp: reschedule_timers [OF assms])
  then show "ident x = k'"
  proof cases
    case 1
    from lt [OF 1(1)] h have "h \<noteq> next_handle w" by simp
    with m have "k' \<noteq> k" and "debounceMap w k' = Some h"
      by (auto simp: reschedule_map split: if_splits)
    then show ?thesis using consistentD(4) [OF assms _ 1(1) h] by blast
  next
    case 2
    with h have hn: "h = next_handle w" by simp
    have "k' = k"
    proof (rule ccontr)
      assume "k' \<noteq> k"
      with m have "debounceMap w k' = Some h" by (simp add: reschedule_map)
      from consistentD(3) [OF assms this] hn show False by simp
    qed
    with 2 show ?thesis by simp
  qed
qed


text \<open>
  Every state the helper reaches from the fresh page with callbacks that leave it alone is
  consistent.
\<close>

lemma consistent_sched0: "consistent (sched0 t)"
  by (simp add: consistent_def sched0_def)

lemma consistent_invoke:
  assumes "quiet exec" and "consistent w"
  shows "consistent (invoke exec k f w)"
  using assms(2) by (simp add: consistent_def invoke_def quietD [OF assms(1)])

lemma consistent_debounce:
  assumes "quiet exec" and "consistent w"
  shows "consistent (debounce exec k f delay w)" and "consistent (debounce500 k f delay w)"
proof -
  show "consistent (debounce exec k f delay w)"
    using consistent_reschedule [OF assms(2)] consistent_invoke [OF assms]
    by (simp add: debounce_def Let_def)
  show "consistent (debounce500 k f delay w)"
    using consistent_reschedule [OF assms(2)] by (simp add: debounce500_def Let_def)
qed

lemma debounce_positive: "0 < d \<Longrightarrow> debounce exec k f (Some d) w = reschedule k f d w"
  by (simp add: debounce_def)

lemma debounce500_explicit: "debounce500 k f (Some d) w = reschedule k f d w"
  by (simp add: debounce500_def)






text \<open>
  A callback that calls \<open>debounce\<close> for its own identifier is outside what the amended
  claim above covers. The closure of a timeout runs \<open>func()\<close> first and deletes the entry of
  the identifier afterwards, so the timeout that \<open>func\<close> has scheduled stays pending
  while \<open>debounceMap\<close> has lost it. The input does this: \<open>validate\<close>, run from its
  timeout while \<open>config.debounce\<close> still postpones it, schedules itself again. Below, an
  input bound to a signal, with \<open>debounce = 100\<close>: the write of \<open>"x"\<close> at \<open>1010\<close> is
  postponed, the timeout runs at \<open>1110\<close>, \<open>60\<close> milliseconds after the last edit, and
  schedules \<open>validate("x")\<close> again, leaving a pending timeout and no entry. The write of
  \<open>"y"\<close> at \<open>1160\<close>, postponed too, calls \<open>debounce\<close> for the same identifier
  \<open>50\<close> milliseconds after that call and cancels nothing: \<open>validate("x")\<close> runs at
  \<open>1210\<close>.
\<close>

lemma reentrant_validate_orphans_timeout:
  "map_option (\<lambda>s. (map ident (timers s), debounceMap s ''idvalidate'', runs_of ''idvalidate'' (calls s)))
     (input_run
        \<lparr>validators = None, required = None, has_onchange = False, cfg_value = JStr ''a'',
         value_is_signal = True, cfg_debounce = Some 100\<rparr>
        [Edit ''ab'', Wait 10, Written (JStr ''x'') ''x'', Wait 40, Edit ''abc'', Wait 60]
        (input \<lparr>validators = None, required = None, has_onchange = False, cfg_value = JStr ''a'',
         value_is_signal = True, cfg_debounce = Some 100\<rparr> ''id'' 1000))
     = Some ([''idvalue'', ''idvalidate''], None, [(1110, Validate (JStr ''x''))])
   \<and> map_option (\<lambda>s. runs_of ''idvalidate'' (calls s))
     (input_run
        \<lparr>validators = None, required = None, has_onchange = False, cfg_value = JStr ''a'',
         value_is_signal = True, cfg_debounce = Some 100\<rparr>
        [Edit ''ab'', Wait 10, Written (JStr ''x'') ''x'', Wait 40, Edit ''abc'', Wait 60,
         Wait 40, Edit ''abcd'', Wait 10, Written (JStr ''y'') ''y'', Wait 50]
        (input \<lparr>validators = None, required = None, has_onchange = False, cfg_value = JStr ''a'',
         value_is_signal = True, cfg_debounce = Some 100\<rparr> ''id'' 1000))
     = Some [(1110, Validate (JStr ''x'')), (1210, Validate (JStr ''x''))]"
  by code_simp

text \<open>
  C3. The variant of src/Debounce.ts, called with a delay that is \<open>0\<close> or absent, calls
  the function before it returns and schedules nothing. The other variant never calls the
  function itself: every call leaves the trace as it was and a new timeout for the
  function in the queue, due after the given delay, after \<open>500\<close> milliseconds when none
  is given. For an explicit positive delay the two variants do the same.
\<close>

theorem debounce_variants:
  "(delay = None \<or> delay = Some 0 \<longrightarrow>
      debounce exec k f delay w = exec f (w\<lparr>calls := calls w @ [(now w, k, f)]\<rparr>))
   \<and> calls (debounce500 k f delay w) = calls w
   \<and> (\<exists>tm\<in>set (timers (debounce500 k f delay w)).
        handle tm = next_handle w \<and> ident tm = k \<and> func tm = f
        \<and> due tm = now w + (case delay of None \<Rightarrow> 500 | Some d \<Rightarrow> d))
   \<and> debounceMap (debounce500 k f delay w) k = Some (next_handle w)
   \<and> debounce500 k f None w = debounce500 k f (Some 500) w
   \<and> (0 < d \<longrightarrow> debounce exec k f (Some d) w = debounce500 k f (Some d) w)"
proof (intro conjI impI)
  assume "delay = None \<or> delay = Some 0"
  then show "debounce exec k f delay w = exec f (w\<lparr>calls := calls w @ [(now w, k, f)]\<rparr>)"
    by (auto simp: debounce_def invoke_def)
next
  show "calls (debounce500 k f delay w) = calls w"
    by (simp add: debounce500_def reschedule_calls)
next
  show "\<exists>tm\<in>set (timers (debounce500 k f delay w)).
        handle tm = next_handle w \<and> ident tm = k \<and> func tm = f
        \<and> due tm = now w + (case delay of None \<Rightarrow> 500 | Some d \<Rightarrow> d)"
    by (simp add: debounce500_def reschedule_shape Let_def)
next
  show "debounceMap (debounce500 k f delay w) k = Some (next_handle w)"
    by (simp add: debounce500_def reschedule_map)
next
  show "debounce500 k f None w = debounce500 k f (Some 500) w"
    by (simp add: debounce500_def)
next
  assume "0 < d"
  then show "debounce exec k f (Some d) w = debounce500 k f (Some d) w"
    by (simp add: debounce_positive debounce500_explicit)
qed

theorem debounce_variants_witness:
  "calls (debounce opaque ''k'' ''f'' None (sched0 0 :: string sched)) = [(0, ''k'', ''f'')]
   \<and> timers (debounce opaque ''k'' ''f'' (Some 0) (sched0 0 :: string sched)) = []
   \<and> calls (debounce500 ''k'' ''f'' None (sched0 0 :: string sched)) = []
   \<and> debounce opaque ''k'' ''f'' (Some 100) (sched0 0 :: string sched)
       = debounce500 ''k'' ''f'' (Some 100) (sched0 0)"
proof -
  let ?w = "sched0 0 :: string sched"
  note v = debounce_variants [where w = ?w and k = "''k''" and f = "''f''" and exec = opaque]
  have pos: "0 < (100 :: int)" by simp
  have a: "debounce opaque ''k'' ''f'' None ?w
      = opaque ''f'' (?w\<lparr>calls := calls ?w @ [(now ?w, ''k'', ''f'')]\<rparr>)"
    using v [where delay = None and d = 100] by blast
  have b: "debounce opaque ''k'' ''f'' (Some 0) ?w
      = opaque ''f'' (?w\<lparr>calls := calls ?w @ [(now ?w, ''k'', ''f'')]\<rparr>)"
    using v [where delay = "Some 0" and d = 100] by blast
  have c: "calls (debounce500 ''k'' ''f'' None ?w) = calls ?w"
    using v [where delay = None and d = 100] by blast
  have d: "debounce opaque ''k'' ''f'' (Some 100) ?w = debounce500 ''k'' ''f'' (Some 100) ?w"
    using v [where delay = None and d = 100] pos by blast
  show ?thesis
    unfolding a b c d by (simp add: opaque_def sched0_def)
qed

section \<open>Properties of validation\<close>

lemma errors_fold_resume:
  "errors (fold resume rs st) = errors st @ concat (map result_errors rs)"
  by (induction rs arbitrary: st)
     (auto simp: resume_def result_errors_def split: awaited.splits valresult.splits)

lemma errors_settle: "errors (settle st) = errors st @ concat (map result_errors (jobs st))"
  by (simp add: settle_def errors_fold_resume)

lemma start_validators_eq:
  "start_validators vs x st =
     st\<lparr>jobs := jobs st @ (case vs of None \<Rightarrow> [] | Some l \<Rightarrow> map (\<lambda>v. v x) l)\<rparr>"
  by (simp add: start_validators_def split: option.splits)

lemma concat_started:
  "concat (map result_errors (case vs of None \<Rightarrow> [] | Some l \<Rightarrow> map (\<lambda>v. v x) l))
     = validator_errors vs x"
  by (simp add: validator_errors_def comp_def split: option.splits)

text \<open>
  A pass of the textarea, with whatever earlier passes have left waiting: the required
  message is written before any continuation resumes, so it comes first; the continuations
  of earlier passes, if there are any, still deliver into the new list.
\<close>

lemma textarea_pass:
  "errors (settle (textarea_validate config x st)) =
     (if truthy_flag (required config) \<and> (x = JNull \<or> x = JUndefined \<or> x = JStr [])
      then [required_message] else [])
     @ concat (map result_errors (jobs st)) @ validator_errors (validators config) x"
  by (simp add: errors_settle textarea_validate_def Let_def start_validators_eq concat_started)


text \<open>
  Validators that answer through promises may settle in another order than they were
  called in. Whatever the order \<open>rs\<close> in which the results arrive, the list reads: the
  required message, then the arrays in order of arrival.
\<close>

lemma textarea_pass_any_order:
  "errors (fold resume rs (textarea_validate config x st)) =
     (if truthy_flag (required config) \<and> (x = JNull \<or> x = JUndefined \<or> x = JStr [])
      then [required_message] else [])
     @ concat (map result_errors rs)"
  by (simp add: errors_fold_resume textarea_validate_def Let_def start_validators_eq)

lemma debounce_truthy:
  "truthy_num delay \<Longrightarrow> debounce exec k f delay w = reschedule k f (the delay) w"
  by (auto simp: debounce_def truthy_num_def split: option.splits)

lemma reschedule_fields:
  "errors (reschedule k f d st) = errors st"
  "jobs (reschedule k f d st) = jobs st"
  "touched (reschedule k f d ist) = touched ist"
  by (simp_all add: reschedule_def setTimeout_def clearTimeout_def Let_def split: option.splits)

declare input_validate.simps [simp del]

lemma input_postponed:
  "postponed config st \<Longrightarrow>
   input_validate config x st =
     reschedule (inputId st @ ''validate'') (Validate x) (the (cfg_debounce config)) (st\<lparr>errors := []\<rparr>)"
  by (simp add: input_validate.simps postponed_def Let_def debounce_truthy)

lemma input_not_postponed:
  "\<not> postponed config st \<Longrightarrow>
   input_validate config x st =
     (let st2 = start_validators (validators config) x (st\<lparr>errors := []\<rparr>)
      in if truthy_flag (required config) \<and> (x = JNull \<or> x = JUndefined \<or> x = JStr []) \<and> touched st
         then st2\<lparr>errors := errors st2 @ [required_message]\<rparr> else st2)"
  by (auto simp add: input_validate.simps postponed_def Let_def start_validators_eq)

lemma input_pass:
  "\<not> postponed config st \<Longrightarrow>
   errors (settle (input_validate config x st)) =
     (if truthy_flag (required config) \<and> (x = JNull \<or> x = JUndefined \<or> x = JStr []) \<and> touched st
      then [required_message] else [])
     @ concat (map result_errors (jobs st)) @ validator_errors (validators config) x"
  by (simp add: input_not_postponed errors_settle Let_def start_validators_eq concat_started)

lemma touched_input_validate: "touched (input_validate config x st) = touched st"
  by (cases "postponed config st")
     (simp_all add: input_postponed input_not_postponed reschedule_fields Let_def start_validators_eq)

lemma touched_input_exec: "touched (input_exec config t st) = touched st"
  by (cases t) (simp_all add: touched_input_validate Let_def)

lemma touched_debounce_input:
  "touched (debounce (input_exec config) k f d st) = touched st"
  by (simp add: debounce_def invoke_def Let_def touched_input_exec reschedule_fields)

text \<open>
  C1, as stated: the error list is the validators' arrays in validator order, followed by
  the required message. It fails wherever a validator reports an error and the required
  message applies: a required textarea, the empty string, one validator that answers
  \<open>["too short"]\<close>. The message is appended while every validator still waits at its
  \<open>await\<close>, so the list reads message first.
\<close>

theorem validation_order_counterexample:
  "errors (settle (textarea_validate
      \<lparr>validators = Some [\<lambda>_. Fulfilled (VErrors [''too short''])], required = Some True,
       has_onchange = False, cfg_value = JStr [], value_is_signal = False\<rparr>
      (JStr [])
      (\<lparr>now = 0, timers = [], next_handle = 1, debounceMap = (\<lambda>_. None), calls = [],
       errors = [''stale''], jobs = [], changes = []\<rparr> :: unit field_state)))
   \<noteq> validator_errors (Some [\<lambda>_. Fulfilled (VErrors [''too short''])]) (JStr [])
       @ [required_message]"
  by (simp add: settle_def textarea_validate_def start_validators_def resume_def truthy_flag_def
      validator_errors_def result_errors_def required_message_def)

text \<open>
  C1, amended: when no validator call of an earlier pass is still waiting, a pass that
  completes leaves as error list the required message, if the required policy applies
  (for the input: and the field is touched), followed by the concatenation, in validator
  order, of the arrays the validators settle to; the prior list is replaced. A pass of
  the input that is postponed by \<open>config.debounce\<close> calls no validator and leaves the
  list empty.
\<close>

theorem validation_pass_errors:
  fixes config :: "'c valued_config_scheme" and iconfig :: "'d input_config_scheme"
    and st :: "('f, 'z) field_state_scheme"
  assumes "jobs st = []" and "jobs ist = []"
  shows "errors (settle (textarea_validate config x st)) =
           (if truthy_flag (required config) \<and> (x = JNull \<or> x = JUndefined \<or> x = JStr [])
            then [required_message] else [])
           @ validator_errors (validators config) x
       \<and> errors (settle (input_validate iconfig x ist)) =
           (if postponed iconfig ist then []
            else (if truthy_flag (required iconfig) \<and> (x = JNull \<or> x = JUndefined \<or> x = JStr [])
                     \<and> touched ist
                  then [required_message] else [])
                 @ validator_errors (validators iconfig) x)"
proof (intro conjI)
  show "errors (settle (textarea_validate config x st)) =
           (if truthy_flag (required config) \<and> (x = JNull \<or> x = JUndefined \<or> x = JStr [])
            then [required_message] else [])
           @ validator_errors (validators config) x"
    using assms(1) by (simp add: textarea_pass)
next
  show "errors (settle (input_validate iconfig x ist)) =
           (if postponed iconfig ist then []
            else (if truthy_flag (required iconfig) \<and> (x = JNull \<or> x = JUndefined \<or> x = JStr [])
                     \<and> touched ist
                  then [required_message] else [])
                 @ validator_errors (validators iconfig) x)"
  proof (cases "postponed iconfig ist")
    case True
    then show ?thesis
      using assms(2) by (simp add: input_postponed errors_settle reschedule_fields)
  next
    case False
    then show ?thesis
      using assms(2) by (simp add: input_pass)
  qed
qed

theorem validation_pass_errors_witness:
  "errors (settle (textarea_validate
      \<lparr>validators = Some [\<lambda>_. Fulfilled (VErrors [''too short'']), \<lambda>_. Fulfilled VNull,
                          \<lambda>_. Fulfilled (VErrors [''no digit''])],
       required = Some True, has_onchange = False, cfg_value = JStr [], value_is_signal = False\<rparr>
      (JStr [])
      (\<lparr>now = 0, timers = [], next_handle = 1, debounceMap = (\<lambda>_. None), calls = [],
       errors = [''stale''], jobs = [], changes = []\<rparr> :: unit field_state)))
     = [''This field is required.'', ''too short'', ''no digit'']
   \<and> errors (settle (input_validate
      \<lparr>validators = Some [\<lambda>_. Fulfilled (VErrors [''too short''])],
       required = Some True, has_onchange = False, cfg_value = JStr [], value_is_signal = False,
       cfg_debounce = Some 300\<rparr>
      (JStr [])
      \<lparr>now = 1000, timers = [], next_handle = 1, debounceMap = (\<lambda>_. None), calls = [],
       errors = [''stale''], jobs = [], changes = [],
       touched = True, lastChange = 500, inputId = ''id'', cur_value = JStr [],
       target_value = []\<rparr>))
     = [''This field is required.'', ''too short'']"
  using validation_pass_errors [of
      "\<lparr>now = 0, timers = [], next_handle = 1, debounceMap = (\<lambda>_. None), calls = [],
       errors = [''stale''], jobs = [], changes = []\<rparr> :: unit field_state"
      "\<lparr>now = 1000, timers = [], next_handle = 1, debounceMap = (\<lambda>_. None), calls = [],
       errors = [''stale''], jobs = [], changes = [],
       touched = True, lastChange = 500, inputId = ''id'', cur_value = JStr [],
       target_value = []\<rparr>"
      "\<lparr>validators = Some [\<lambda>_. Fulfilled (VErrors [''too short'']), \<lambda>_. Fulfilled VNull,
                          \<lambda>_. Fulfilled (VErrors [''no digit''])],
       required = Some True, has_onchange = False, cfg_value = JStr [], value_is_signal = False\<rparr>"
      "JStr []"
      "\<lparr>validators = Some [\<lambda>_. Fulfilled (VErrors [''too short''])],
       required = Some True, has_onchange = False, cfg_value = JStr [], value_is_signal = False,
       cfg_debounce = Some 300\<rparr>"]
  by (simp add: truthy_flag_def validator_errors_def result_errors_def required_message_def
      postponed_def truthy_num_def)

text \<open>
  C4. With \<open>required\<close> set and an empty-like value (\<open>null\<close>, \<open>undefined\<close> and, for the
  input and the textarea, the empty string; for the checkbox and the toggle, whose value
  is a boolean, \<open>false\<close>): a pass of the input adds the required message only if the
  field is touched, which the factory leaves it not and every edit event makes it; a pass
  of the textarea, the checkbox or the toggle adds it whatever came before, also the pass
  the factory runs on its fresh state. The factories of the textarea and of the toggle
  return with that list; so does the factory of the checkbox for \<open>false\<close>, while for
  \<open>null\<close> and \<open>undefined\<close> it throws a \<open>TypeError\<close> once its pass has added the message.
  The lists are those \<open>validate\<close> returns with, before any validator has answered.
\<close>

theorem required_policy:
  fixes iconfig :: "'d input_config_scheme" and config :: "'c valued_config_scheme"
    and bconfig :: "'e boolean_config_scheme"
    and st :: "('f, 'z) field_state_scheme"
  assumes "truthy_flag (required iconfig)" and "truthy_flag (required config)"
    and "truthy_flag (required bconfig)"
    and "x = JNull \<or> x = JUndefined \<or> x = JStr []"
    and "b = JNull \<or> b = JUndefined \<or> b = JBool False"
  shows "errors (input_validate iconfig x ist) =
           (if touched ist \<and> \<not> postponed iconfig ist then [required_message] else [])
       \<and> \<not> touched (input iconfig uuid t)
       \<and> errors (input (iconfig\<lparr>cfg_value := x\<rparr>) uuid t) = []
       \<and> touched (input_oninput iconfig v ist)
       \<and> errors (textarea_validate config x st) = [required_message]
       \<and> errors (textarea (config\<lparr>cfg_value := x\<rparr>) t :: 'f field_state) = [required_message]
       \<and> errors (checkbox_validate bconfig b st) = [required_message]
       \<and> errors (checkbox_validate (bconfig\<lparr>checked := b\<rparr>) b (fresh_field t :: 'f field_state))
           = [required_message]
       \<and> checkbox (bconfig\<lparr>checked := b\<rparr>) t
           = (if b = JBool False
              then Inr (checkbox_validate (bconfig\<lparr>checked := b\<rparr>) b (fresh_field t :: 'f field_state))
              else Inl TypeError)
       \<and> errors (toggle_validate bconfig b st) = [required_message]
       \<and> errors (toggle (bconfig\<lparr>checked := b\<rparr>) t :: 'f field_state) = [required_message]"
proof -
  have i1: "errors (input_validate iconfig x ist) =
           (if touched ist \<and> \<not> postponed iconfig ist then [required_message] else [])"
    using assms(1,4)
    by (cases "postponed iconfig ist")
       (auto simp: input_postponed input_not_postponed reschedule_fields Let_def start_validators_eq)
  have i2: "\<not> touched (input iconfig uuid t)"
    by (simp add: input_def Let_def touched_input_validate)
  have i3: "errors (input (iconfig\<lparr>cfg_value := x\<rparr>) uuid t) = []"
  proof -
    let ?c = "iconfig\<lparr>cfg_value := x\<rparr>"
    let ?s = "\<lparr>now = t, timers = [], next_handle = 1, debounceMap = (\<lambda>_. None), calls = [],
                errors = [], jobs = [], changes = [],
                touched = False, lastChange = 0, inputId = uuid, cur_value = cfg_value ?c,
                target_value = []\<rparr>"
    have "errors (input_validate ?c x ?s) = []"
      by (cases "postponed ?c ?s")
         (auto simp: input_postponed input_not_postponed reschedule_fields Let_def start_validators_eq)
    then show ?thesis by (simp add: input_def Let_def)
  qed
  have i4: "touched (input_oninput iconfig v ist)"
    by (simp add: input_oninput_def Let_def touched_debounce_input touched_input_validate)
  have t1: "\<And>s :: ('f, 'z) field_state_scheme. errors (textarea_validate config x s) = [required_message]"
    using assms(2,4) by (auto simp: textarea_validate_def Let_def start_validators_eq)
  have t2: "errors (textarea (config\<lparr>cfg_value := x\<rparr>) t :: 'f field_state) = [required_message]"
    using assms(2,4) by (auto simp: textarea_def textarea_validate_def Let_def start_validators_eq)
  have c1: "errors (checkbox_validate bconfig b st) = [required_message]"
    using assms(3,5) by (auto simp: checkbox_validate_def Let_def start_validators_eq)
  have c2: "errors (checkbox_validate (bconfig\<lparr>checked := b\<rparr>) b (fresh_field t :: 'f field_state))
      = [required_message]"
    using assms(3,5) by (auto simp: checkbox_validate_def Let_def start_validators_eq)
  have c3: "checkbox (bconfig\<lparr>checked := b\<rparr>) t
      = (if b = JBool False
         then Inr (checkbox_validate (bconfig\<lparr>checked := b\<rparr>) b (fresh_field t :: 'f field_state))
         else Inl TypeError)"
    using assms(5) by (auto simp: checkbox_def nullish_def Let_def)
  have g1: "errors (toggle_validate bconfig b st) = [required_message]"
    using assms(3,5) by (auto simp: toggle_validate_def Let_def start_validators_eq)
  have g2: "errors (toggle (bconfig\<lparr>checked := b\<rparr>) t :: 'f field_state) = [required_message]"
    using assms(3,5) by (auto simp: toggle_def toggle_validate_def Let_def start_validators_eq)
  from i1 i2 i3 i4 t1 t2 c1 c2 c3 g1 g2 show ?thesis by blast
qed

theorem required_policy_witness:
  "errors (input_validate
      \<lparr>validators = None, required = Some True, has_onchange = False, cfg_value = JStr [],
       value_is_signal = False, cfg_debounce = None\<rparr>
      (JStr [])
      \<lparr>now = 1000, timers = [], next_handle = 1, debounceMap = (\<lambda>_. None), calls = [],
       errors = [], jobs = [], changes = [],
       touched = False, lastChange = 0, inputId = ''id'', cur_value = JStr [],
       target_value = []\<rparr>) = []
   \<and> errors (textarea_validate
      \<lparr>validators = None, required = Some True, has_onchange = False, cfg_value = JStr [],
       value_is_signal = False\<rparr>
      (JStr [])
      (\<lparr>now = 1000, timers = [], next_handle = 1, debounceMap = (\<lambda>_. None), calls = [],
       errors = [], jobs = [], changes = []\<rparr> :: unit field_state)) = [''This field is required.'']
   \<and> errors (checkbox_validate
      \<lparr>validators = None, required = Some True, has_onchange = False, checked = JBool False,
       checked_is_signal = False\<rparr>
      (JBool False)
      (\<lparr>now = 1000, timers = [], next_handle = 1, debounceMap = (\<lambda>_. None), calls = [],
       errors = [], jobs = [], changes = []\<rparr> :: unit field_state)) = [''This field is required.'']
   \<and> (checkbox
      \<lparr>validators = None, required = Some True, has_onchange = False, checked = JBool False,
       checked_is_signal = False\<rparr> 1000 :: js_error + unit field_state)
     = Inr \<lparr>now = 1000, timers = [], next_handle = 1, debounceMap = (\<lambda>_. None), calls = [],
            errors = [''This field is required.''], jobs = [], changes = []\<rparr>
   \<and> (checkbox
      \<lparr>validators = None, required = Some True, has_onchange = False, checked = JNull,
       checked_is_signal = False\<rparr> 1000 :: js_error + unit field_state)
     = Inl TypeError"
proof -
  let ?ic = "\<lparr>validators = None, required = Some True, has_onchange = False, cfg_value = JStr [],
       value_is_signal = False, cfg_debounce = None\<rparr>"
  let ?c = "\<lparr>validators = None, required = Some True, has_onchange = False, cfg_value = JStr [],
       value_is_signal = False\<rparr>"
  let ?bc = "\<lparr>validators = None, required = Some True, has_onchange = False, checked = JBool False,
       checked_is_signal = False\<rparr>"
  let ?ist = "\<lparr>now = 1000, timers = [], next_handle = 1, debounceMap = (\<lambda>_. None), calls = [],
       errors = [], jobs = [], changes = [],
       touched = False, lastChange = 0, inputId = ''id'', cur_value = JStr [],
       target_value = []\<rparr>"
  let ?st = "\<lparr>now = 1000, timers = [], next_handle = 1, debounceMap = (\<lambda>_. None), calls = [],
       errors = [], jobs = [], changes = []\<rparr> :: unit field_state"
  have r: "truthy_flag (required ?ic)" "truthy_flag (required ?c)" "truthy_flag (required ?bc)"
    "JStr [] = JNull \<or> JStr [] = JUndefined \<or> JStr [] = JStr []"
    by (simp_all add: truthy_flag_def)
  note a = required_policy [where iconfig = ?ic and config = ?c and bconfig = ?bc and x = "JStr []"
      and b = "JBool False" and ist = ?ist and st = ?st and uuid = "''id''" and t = 1000
      and v = "''a''", OF r]
  note b = required_policy [where iconfig = ?ic and config = ?c and bconfig = ?bc and x = "JStr []"
      and b = JNull and ist = ?ist and st = ?st and uuid = "''id''" and t = 1000
      and v = "''a''", OF r]
  from a b show ?thesis
    by (simp add: required_message_def postponed_def truthy_num_def fresh_field_def
        checkbox_validate_def start_validators_def truthy_flag_def)
qed

text \<open>
  C5. A checkbox with \<open>required\<close> true and no validators: validation of \<open>false\<close> leaves
  exactly the required message, validation of \<open>true\<close> leaves the list empty, in a later
  pass as in the pass the factory runs, which returns the checkbox for both values.
\<close>

theorem checkbox_required:
  fixes config :: "'c boolean_config_scheme" and st :: "('f, 'z) field_state_scheme"
  assumes "required config = Some True"
    and "validators config = None \<or> validators config = Some []"
    and "jobs st = []"
  shows "errors (settle (checkbox_validate config (JBool False) st)) = [required_message]
       \<and> errors (settle (checkbox_validate config (JBool True) st)) = []
       \<and> (\<exists>s :: 'f field_state. checkbox (config\<lparr>checked := JBool False\<rparr>) t = Inr s
             \<and> errors (settle s) = [required_message])
       \<and> (\<exists>s :: 'f field_state. checkbox (config\<lparr>checked := JBool True\<rparr>) t = Inr s
             \<and> errors (settle s) = [])"
proof -
  have pass: "\<And>(s :: ('f, 'y) field_state_scheme) c. jobs s = [] \<Longrightarrow>
      errors (settle (checkbox_validate config (JBool c) s)) = (if c then [] else [required_message])"
    using assms(1,2)
    by (auto simp: errors_settle checkbox_validate_def Let_def start_validators_eq truthy_flag_def)
  have made: "\<And>c. \<exists>s :: 'f field_state. checkbox (config\<lparr>checked := JBool c\<rparr>) t = Inr s
      \<and> errors (settle s) = (if c then [] else [required_message])"
    using assms(1,2)
    by (auto simp: errors_settle checkbox_def checkbox_validate_def Let_def start_validators_eq
        truthy_flag_def nullish_def fresh_field_def)
  show ?thesis
    using pass [OF assms(3), of False] pass [OF assms(3), of True] made [of False] made [of True]
    by simp
qed

theorem checkbox_required_witness:
  "errors (settle (checkbox_validate
      \<lparr>validators = None, required = Some True, has_onchange = False, checked = JBool True,
       checked_is_signal = False\<rparr>
      (JBool False)
      (\<lparr>now = 1000, timers = [], next_handle = 1, debounceMap = (\<lambda>_. None), calls = [],
       errors = [], jobs = [], changes = []\<rparr> :: unit field_state))) = [''This field is required.'']
   \<and> errors (settle (checkbox_validate
      \<lparr>validators = None, required = Some True, has_onchange = False, checked = JBool True,
       checked_is_signal = False\<rparr>
      (JBool True)
      (\<lparr>now = 1000, timers = [], next_handle = 1, debounceMap = (\<lambda>_. None), calls = [],
       errors = [], jobs = [], changes = []\<rparr> :: unit field_state))) = []"
proof -
  let ?c = "\<lparr>validators = None, required = Some True, has_onchange = False, checked = JBool True,
       checked_is_signal = False\<rparr>"
  let ?st = "\<lparr>now = 1000, timers = [], next_handle = 1, debounceMap = (\<lambda>_. None), calls = [],
       errors = [], jobs = [], changes = []\<rparr> :: unit field_state"
  have r: "required ?c = Some True" "validators ?c = None \<or> validators ?c = Some []" "jobs ?st = []"
    by simp_all
  from checkbox_required [where config = ?c and st = ?st and t = 0 and 'f = unit, OF r]
  show ?thesis by (simp add: required_message_def)
qed

section \<open>Properties of the searchable select\<close>

text \<open>\<open>startsWith\<close> and \<open>includes_str\<close> are the prefix and the contiguous-sublist tests.\<close>

lemma startsWith_prefix: "startsWith s p \<longleftrightarrow> prefix p s"
  by (induction s p rule: startsWith.induct) auto

lemma includes_str_sublist: "includes_str s p \<longleftrightarrow> sublist p s"
  by (induction s) (auto simp: startsWith_prefix sublist_Cons_right)

lemmas select_defs =
  set_value_def set_search_def set_options_def filter_sel_def set_selectedIndex_def
  updateSelectedId_def set_optionsVisible_def filter_index_def

lemma findIndex_from_none:
  "\<forall>x\<in>set xs. \<not> p x \<Longrightarrow> findIndex_from p xs i = - 1"
  by (induction xs arbitrary: i) auto

lemma findIndex_from_first:
  "n < length xs \<Longrightarrow> p (xs ! n) \<Longrightarrow> \<forall>m<n. \<not> p (xs ! m) \<Longrightarrow> findIndex_from p xs i = i + int n"
proof (induction xs arbitrary: i n)
  case Nil
  then show ?case by simp
next
  case (Cons x xs)
  show ?case
  proof (cases n)
    case 0
    with Cons.prems show ?thesis by simp
  next
    case (Suc k)
    with Cons.prems have "\<not> p x" by auto
    moreover have "findIndex_from p xs (i + 1) = (i + 1) + int k"
      using Cons.prems Suc by (intro Cons.IH) auto
    ultimately show ?thesis using Suc by simp
  qed
qed

lemma findIndex_from_lower: "- 1 \<le> i \<Longrightarrow> - 1 \<le> findIndex_from p xs i"
  by (induction xs arbitrary: i) auto

lemma findIndex_none: "\<forall>x\<in>set xs. \<not> p x \<Longrightarrow> findIndex p xs = - 1"
  by (simp add: findIndex_def findIndex_from_none)

lemma findIndex_first:
  "n < length xs \<Longrightarrow> p (xs ! n) \<Longrightarrow> \<forall>m<n. \<not> p (xs ! m) \<Longrightarrow> findIndex p xs = int n"
  using findIndex_from_first [of n xs p 0] by (simp add: findIndex_def)

lemma findIndex_lower: "- 1 \<le> findIndex p xs"
  by (simp add: findIndex_def findIndex_from_lower)

lemma name_for_none: "\<forall>opt\<in>set os. opt_id opt \<noteq> v \<Longrightarrow> name_for v os = []"
proof -
  assume "\<forall>opt\<in>set os. opt_id opt \<noteq> v"
  then have "find (\<lambda>opt. opt_id opt = v) os = None"
    by (subst find_None_iff) blast
  then show ?thesis by (simp add: name_for_def)
qed

lemma name_for_first:
  "n < length os \<Longrightarrow> opt_id (os ! n) = v \<Longrightarrow> \<forall>m<n. opt_id (os ! m) \<noteq> v
   \<Longrightarrow> name_for v os = opt_name (os ! n)"
proof -
  assume a: "n < length os" "opt_id (os ! n) = v" "\<forall>m<n. opt_id (os ! m) \<noteq> v"
  then have "find (\<lambda>opt. opt_id opt = v) os = Some (os ! n)"
    by (subst find_Some_iff) blast
  then show ?thesis by (simp add: name_for_def)
qed

text \<open>
  C8. A write of \<open>v\<close> to the \<open>value\<close> signal leaves \<open>search\<close> holding the name of the
  option of the current options list whose id is \<open>v\<close> (the first one, should several
  have it), and the empty string when no option has that id.
\<close>

theorem value_write_syncs_search:
  "sel_value (set_value lower v st) = v
   \<and> options (set_value lower v st) = options st
   \<and> ((\<forall>opt\<in>set (options st). opt_id opt \<noteq> v) \<longrightarrow> search (set_value lower v st) = [])
   \<and> (\<forall>n. n < length (options st) \<and> opt_id (options st ! n) = v
            \<and> (\<forall>m<n. opt_id (options st ! m) \<noteq> v)
          \<longrightarrow> search (set_value lower v st) = opt_name (options st ! n))"
proof -
  have s: "search (set_value lower v st) = name_for v (options st)"
    by (simp add: select_defs Let_def)
  show ?thesis
    by (simp add: s name_for_none name_for_first) (simp add: select_defs Let_def)
qed


lemma selectedIndex_filter_sel:
  "selectedIndex (filter_sel lower st) = Num (findIndex (matches lower (search st)) (options st))"
  by (simp add: select_defs)

lemma selectedIndex_set_search:
  "selectedIndex (set_search lower s st) = Num (findIndex (matches lower s) (options st))"
  by (simp add: select_defs)

lemma selectedIndex_set_value:
  "selectedIndex (set_value lower v st) = Num (findIndex (matches lower (name_for v (options st))) (options st))"
  by (simp add: select_defs Let_def)

lemma selectedIndex_set_options:
  "selectedIndex (set_options lower os st) = Num (findIndex (matches lower (search st)) os)"
  by (simp add: select_defs)

lemma options_set_search [simp]: "options (set_search lower s st) = options st"
  by (simp add: select_defs)

lemma options_set_value [simp]: "options (set_value lower v st) = options st"
  by (simp add: select_defs Let_def)

lemmas handler_defs =
  select_onkeydown_def option_onclick_def select_timeout_def select_onfocus_def
  dropdown_onclick_def

lemma filtered_select_step: "filtered (select_step lower e st) = filtered st"
  by (cases e) (simp_all add: handler_defs select_defs Let_def)

lemma js_rem_mod:
  assumes "- 1 \<le> a" and "0 < n" and "a = - 1 \<longrightarrow> n = 1"
  shows "js_rem (Num a) (Num n) = Num (a mod n)"
proof -
  consider "a = - 1" "n = 1" | "a = 0" | "0 < a" using assms by linarith
  then have "sgn a * (\<bar>a\<bar> mod \<bar>n\<bar>) = a mod n"
  proof cases
    case 1
    then show ?thesis by simp
  next
    case 2
    then show ?thesis by simp
  next
    case 3
    with assms(2) show ?thesis by simp
  qed
  with assms(2) show ?thesis by simp
qed

lemma js_rem_down:
  assumes "- 1 \<le> i" and "0 < n"
  shows "js_rem (js_add (Num i) (Num 1)) (Num n) = Num ((i + 1) mod n)"
  using js_rem_mod [of "i + 1" n] assms by simp

lemma js_rem_up:
  assumes "- 1 \<le> i" and "0 < n"
  shows "js_rem (js_add (js_sub (Num i) (Num 1)) (Num n)) (Num n) = Num ((i - 1 + n) mod n)"
proof -
  have "js_rem (Num (i - 1 + n)) (Num n) = Num ((i - 1 + n) mod n)"
    using assms by (intro js_rem_mod) auto
  then show ?thesis by simp
qed

lemma index_known_step:
  assumes "filtered st = [] \<or> (\<exists>i. - 1 \<le> i \<and> selectedIndex st = Num i)"
  shows "filtered (select_step lower e st) = [] \<or> (\<exists>i. - 1 \<le> i \<and> selectedIndex (select_step lower e st) = Num i)"
proof (cases "filtered st = []")
  case True
  then show ?thesis by (simp add: filtered_select_step)
next
  case False
  with assms obtain i where i: "- 1 \<le> i" "selectedIndex st = Num i" by blast
  from False have n: "0 < int (length (filtered st))" by simp
  have down: "selectedIndex (select_onkeydown lower \<lparr>key = ''ArrowDown'', keyCode = c\<rparr> st)
      = Num ((i + 1) mod int (length (filtered st)))" for c
    using js_rem_down [OF i(1) n] i(2) by (simp add: select_onkeydown_def select_defs)
  have up: "selectedIndex (select_onkeydown lower \<lparr>key = ''ArrowUp'', keyCode = c\<rparr> st)
      = Num ((i - 1 + int (length (filtered st))) mod int (length (filtered st)))" for c
    using js_rem_up [OF i(1) n] i(2) by (simp add: select_onkeydown_def select_defs)
  have "\<exists>j. - 1 \<le> j \<and> selectedIndex (select_step lower e st) = Num j"
  proof (cases e)
    case (KeyDown k)
    consider "key k = ''Enter''" | "key k = ''ArrowDown''" | "key k = ''ArrowUp''"
      | "key k \<noteq> ''Enter''" "key k \<noteq> ''ArrowDown''" "key k \<noteq> ''ArrowUp''" by blast
    then show ?thesis
    proof cases
      case 1
      then show ?thesis
        using KeyDown by (simp add: select_onkeydown_def Let_def set_optionsVisible_def
            selectedIndex_set_search findIndex_lower)
    next
      case 2
      have "- 1 \<le> (i + 1) mod int (length (filtered st))"
        using pos_mod_sign [OF n, of "i + 1"] by linarith
      then show ?thesis
        using KeyDown 2 down [of "keyCode k"] n
        by (cases k) (auto simp: )
    next
      case 3
      have "- 1 \<le> (i - 1 + int (length (filtered st))) mod int (length (filtered st))"
        using pos_mod_sign [OF n, of "i - 1 + int (length (filtered st))"] by linarith
      then show ?thesis
        using KeyDown 3 up [of "keyCode k"] n
        by (cases k) (auto simp: )
    next
      case 4
      then show ?thesis
        using KeyDown i by (simp add: select_onkeydown_def set_optionsVisible_def)
    qed
  qed (use i in \<open>simp_all add: handler_defs set_optionsVisible_def selectedIndex_set_search
        selectedIndex_set_value selectedIndex_set_options findIndex_lower Let_def\<close>)
  then show ?thesis by blast
qed

lemma index_known_factory:
  "\<exists>i. - 1 \<le> i \<and> selectedIndex (searchableSelect lower config) = Num i"
  by (simp add: searchableSelect_def Let_def updateSelectedId_def filter_index_def findIndex_lower)

lemma index_known_fold:
  "filtered st = [] \<or> (\<exists>i. - 1 \<le> i \<and> selectedIndex st = Num i) \<Longrightarrow>
   filtered (fold (select_step lower) evs st) = []
     \<or> (\<exists>i. - 1 \<le> i \<and> selectedIndex (fold (select_step lower) evs st) = Num i)"
proof (induction evs arbitrary: st)
  case Nil
  then show ?case by simp
next
  case (Cons e evs)
  show ?case using Cons.IH [OF index_known_step [OF Cons.prems]] by simp
qed

lemma index_known_run:
  "filtered (select_run lower config evs) = []
     \<or> (\<exists>i. - 1 \<le> i \<and> selectedIndex (select_run lower config evs) = Num i)"
  unfolding select_run_def using index_known_factory [of lower config] by (intro index_known_fold) blast

text \<open>
  C6. In every state the select can reach, if the rendered list \<open>filtered\<close> is not empty
  and has length \<open>n\<close>, and the highlight index is \<open>i\<close>, then ArrowDown sets the index to
  \<open>(i + 1) mod n\<close> and ArrowUp to \<open>(i - 1 + n) mod n\<close>. (The index of a reachable state
  is never below \<open>-1\<close>, which is where the truncating \<open>%\<close> of the source and \<open>mod\<close>
  agree.) With the options \<open>[A, B, C]\<close> the index starts at \<open>0\<close>, is \<open>2\<close> after two
  ArrowDown, and a third wraps it to \<open>0\<close>: the instance that follows the theorem.
\<close>

theorem arrow_keys_cycle:
  assumes "st = select_run lower config evs" and "filtered st \<noteq> []" and "selectedIndex st = Num i"
  shows "selectedIndex (select_onkeydown lower arrowDown st) = Num ((i + 1) mod int (length (filtered st)))
       \<and> selectedIndex (select_onkeydown lower arrowUp st)
           = Num ((i - 1 + int (length (filtered st))) mod int (length (filtered st)))"
proof -
  from index_known_run [of lower config evs] assms have i: "- 1 \<le> i" by auto
  from assms(2) have n: "0 < int (length (filtered st))" by simp
  show ?thesis
    using js_rem_down [OF i n] js_rem_up [OF i n] assms(3)
    by (simp add: select_onkeydown_def select_defs arrowDown_def arrowUp_def)
qed


lemma eq_char_of_iff: "c = char_of n \<longleftrightarrow> take_bit 8 n = of_char c"
  using char_of_eq_iff [of n c] by auto

lemmas char_defs = lower_ascii_def lower_ascii_char_def char_of_eq_iff eq_char_of_iff

lemmas eval_defs =
  select_run_def searchableSelect_def handler_defs select_defs Let_def findIndex_def
  matches_def char_defs name_for_def coalesce_def nullish_def
  arrowDown_def arrowUp_def enter_def

theorem arrow_keys_cycle_witness:
  "selectedIndex (select_run lower_ascii \<lparr>cfg_options = Some
        [\<lparr>opt_name = ''A'', opt_id = JNum 1\<rparr>, \<lparr>opt_name = ''B'', opt_id = JNum 2\<rparr>,
         \<lparr>opt_name = ''C'', opt_id = JNum 3\<rparr>], cfg_sel_value = None\<rparr> []) = Num 0
   \<and> selectedIndex (select_run lower_ascii \<lparr>cfg_options = Some
        [\<lparr>opt_name = ''A'', opt_id = JNum 1\<rparr>, \<lparr>opt_name = ''B'', opt_id = JNum 2\<rparr>,
         \<lparr>opt_name = ''C'', opt_id = JNum 3\<rparr>], cfg_sel_value = None\<rparr>
        [KeyDown arrowDown, KeyDown arrowDown]) = Num 2
   \<and> selectedIndex (select_onkeydown lower_ascii arrowDown (select_run lower_ascii \<lparr>cfg_options = Some
        [\<lparr>opt_name = ''A'', opt_id = JNum 1\<rparr>, \<lparr>opt_name = ''B'', opt_id = JNum 2\<rparr>,
         \<lparr>opt_name = ''C'', opt_id = JNum 3\<rparr>], cfg_sel_value = None\<rparr>
        [KeyDown arrowDown, KeyDown arrowDown])) = Num 0
   \<and> selectedIndex (select_onkeydown lower_ascii arrowUp (select_run lower_ascii \<lparr>cfg_options = Some
        [\<lparr>opt_name = ''A'', opt_id = JNum 1\<rparr>, \<lparr>opt_name = ''B'', opt_id = JNum 2\<rparr>,
         \<lparr>opt_name = ''C'', opt_id = JNum 3\<rparr>], cfg_sel_value = None\<rparr>
        [KeyDown arrowDown, KeyDown arrowDown])) = Num 1"
proof -
  let ?c = "\<lparr>cfg_options = Some
        [\<lparr>opt_name = ''A'', opt_id = JNum 1\<rparr>, \<lparr>opt_name = ''B'', opt_id = JNum 2\<rparr>,
         \<lparr>opt_name = ''C'', opt_id = JNum 3\<rparr>], cfg_sel_value = None\<rparr>"
  let ?st = "select_run lower_ascii ?c [KeyDown arrowDown, KeyDown arrowDown]"
  have s0: "selectedIndex (select_run lower_ascii ?c []) = Num 0"
    by (simp add: eval_defs)
  have s2: "selectedIndex ?st = Num 2" and f: "filtered ?st \<noteq> []" and l: "length (filtered ?st) = 3"
    by (simp_all add: eval_defs)
  show ?thesis
    using arrow_keys_cycle [OF refl f s2] s0 s2 l by simp
qed


text \<open>
  Committing an option. A click commits any option; Enter commits the highlighted option
  when its id is neither \<open>null\<close> nor \<open>undefined\<close>.
\<close>

lemma commit_by_click:
  "sel_value (option_onclick lower opt st) = opt_id opt
   \<and> search (option_onclick lower opt st) = opt_name opt
   \<and> \<not> optionsVisible (option_onclick lower opt st)"
  by (simp add: option_onclick_def select_defs Let_def)

lemma commit_by_enter:
  assumes "js_index (filtered st) (selectedIndex st) = Some opt" and "\<not> nullish (opt_id opt)"
  shows "sel_value (select_onkeydown lower enter st) = opt_id opt
   \<and> search (select_onkeydown lower enter st) = opt_name opt
   \<and> \<not> optionsVisible (select_onkeydown lower enter st)"
  using assms by (simp add: select_onkeydown_def enter_def select_defs Let_def coalesce_def)

lemma commit_example:
  "sel_value (select_run lower_ascii \<lparr>cfg_options = Some [\<lparr>opt_name = ''A'', opt_id = JNum 1\<rparr>,
        \<lparr>opt_name = ''B'', opt_id = JNum 2\<rparr>], cfg_sel_value = None\<rparr>
      [Focus, KeyDown arrowDown, KeyDown enter]) = JNum 2
   \<and> search (select_run lower_ascii \<lparr>cfg_options = Some [\<lparr>opt_name = ''A'', opt_id = JNum 1\<rparr>,
        \<lparr>opt_name = ''B'', opt_id = JNum 2\<rparr>], cfg_sel_value = None\<rparr>
      [Focus, KeyDown arrowDown, KeyDown enter]) = ''B''
   \<and> \<not> optionsVisible (select_run lower_ascii \<lparr>cfg_options = Some [\<lparr>opt_name = ''A'', opt_id = JNum 1\<rparr>,
        \<lparr>opt_name = ''B'', opt_id = JNum 2\<rparr>], cfg_sel_value = None\<rparr>
      [Focus, KeyDown arrowDown, KeyDown enter])
   \<and> sel_value (select_run lower_ascii \<lparr>cfg_options = Some [\<lparr>opt_name = ''A'', opt_id = JNum 1\<rparr>,
        \<lparr>opt_name = ''B'', opt_id = JNum 2\<rparr>], cfg_sel_value = None\<rparr>
      [Focus, OptionClick 1]) = JNum 2
   \<and> search (select_run lower_ascii \<lparr>cfg_options = Some [\<lparr>opt_name = ''A'', opt_id = JNum 1\<rparr>,
        \<lparr>opt_name = ''B'', opt_id = JNum 2\<rparr>], cfg_sel_value = None\<rparr>
      [Focus, OptionClick 1]) = ''B''
   \<and> \<not> optionsVisible (select_run lower_ascii \<lparr>cfg_options = Some [\<lparr>opt_name = ''A'', opt_id = JNum 1\<rparr>,
        \<lparr>opt_name = ''B'', opt_id = JNum 2\<rparr>], cfg_sel_value = None\<rparr>
      [Focus, OptionClick 1])"
  by (simp add: eval_defs)

text \<open>
  C7 says that committing an option, by click or by Enter, sets \<open>value\<close> to the option's
  id, \<open>search\<close> to its name, and closes the dropdown. Enter does not do so for an option
  whose id is \<open>null\<close>: \<open>selectedOption?.id ?? value.value\<close> falls back to the old
  value, while \<open>search\<close> takes the option's name. With the options \<open>A\<close> (id \<open>1\<close>) and
  \<open>None\<close> (id \<open>null\<close>), \<open>value = 1\<close> and the highlight on \<open>None\<close>, Enter leaves
  \<open>value = 1\<close> and \<open>search = "None"\<close>; a click on the same option sets \<open>value\<close> to
  \<open>null\<close>.
\<close>

theorem enter_keeps_value_for_null_id:
  "js_index (filtered (select_run lower_ascii \<lparr>cfg_options = Some [\<lparr>opt_name = ''A'', opt_id = JNum 1\<rparr>,
        \<lparr>opt_name = ''None'', opt_id = JNull\<rparr>], cfg_sel_value = Some (JNum 1)\<rparr>
      [Focus, KeyDown arrowDown]))
     (selectedIndex (select_run lower_ascii \<lparr>cfg_options = Some [\<lparr>opt_name = ''A'', opt_id = JNum 1\<rparr>,
        \<lparr>opt_name = ''None'', opt_id = JNull\<rparr>], cfg_sel_value = Some (JNum 1)\<rparr>
      [Focus, KeyDown arrowDown]))
     = Some \<lparr>opt_name = ''None'', opt_id = JNull\<rparr>
   \<and> sel_value (select_run lower_ascii \<lparr>cfg_options = Some [\<lparr>opt_name = ''A'', opt_id = JNum 1\<rparr>,
        \<lparr>opt_name = ''None'', opt_id = JNull\<rparr>], cfg_sel_value = Some (JNum 1)\<rparr>
      [Focus, KeyDown arrowDown, KeyDown enter]) = JNum 1
   \<and> search (select_run lower_ascii \<lparr>cfg_options = Some [\<lparr>opt_name = ''A'', opt_id = JNum 1\<rparr>,
        \<lparr>opt_name = ''None'', opt_id = JNull\<rparr>], cfg_sel_value = Some (JNum 1)\<rparr>
      [Focus, KeyDown arrowDown, KeyDown enter]) = ''None''
   \<and> sel_value (select_run lower_ascii \<lparr>cfg_options = Some [\<lparr>opt_name = ''A'', opt_id = JNum 1\<rparr>,
        \<lparr>opt_name = ''None'', opt_id = JNull\<rparr>], cfg_sel_value = Some (JNum 1)\<rparr>
      [Focus, KeyDown arrowDown, OptionClick 1]) = JNull"
  by (simp add: eval_defs)

theorem value_write_syncs_search_witness:
  "search (set_value lower_ascii (JNum 2)
      \<lparr>options = [\<lparr>opt_name = ''A'', opt_id = JNum 1\<rparr>, \<lparr>opt_name = ''B'', opt_id = JNum 2\<rparr>],
       sel_value = JNull, search = ''x'', optionsVisible = True,
       filtered = [\<lparr>opt_name = ''A'', opt_id = JNum 1\<rparr>, \<lparr>opt_name = ''B'', opt_id = JNum 2\<rparr>],
       selectedIndex = Num (- 1), selectedId = JUndefined, pending_reads = 0\<rparr>) = ''B''
   \<and> search (set_value lower_ascii (JNum 7)
      \<lparr>options = [\<lparr>opt_name = ''A'', opt_id = JNum 1\<rparr>, \<lparr>opt_name = ''B'', opt_id = JNum 2\<rparr>],
       sel_value = JNull, search = ''x'', optionsVisible = True,
       filtered = [\<lparr>opt_name = ''A'', opt_id = JNum 1\<rparr>, \<lparr>opt_name = ''B'', opt_id = JNum 2\<rparr>],
       selectedIndex = Num (- 1), selectedId = JUndefined, pending_reads = 0\<rparr>) = []"
proof -
  let ?st = "\<lparr>options = [\<lparr>opt_name = ''A'', opt_id = JNum 1\<rparr>, \<lparr>opt_name = ''B'', opt_id = JNum 2\<rparr>],
       sel_value = JNull, search = ''x'', optionsVisible = True,
       filtered = [\<lparr>opt_name = ''A'', opt_id = JNum 1\<rparr>, \<lparr>opt_name = ''B'', opt_id = JNum 2\<rparr>],
       selectedIndex = Num (- 1), selectedId = JUndefined, pending_reads = 0\<rparr>"
  have "search (set_value lower_ascii (JNum 2) ?st) = opt_name (options ?st ! 1)"
    using value_write_syncs_search [where lower = lower_ascii and v = "JNum 2" and st = ?st] by (auto simp: less_Suc_eq)
  moreover have "search (set_value lower_ascii (JNum 7) ?st) = []"
    using value_write_syncs_search [where lower = lower_ascii and v = "JNum 7" and st = ?st] by simp
  ultimately show ?thesis by simp
qed

text \<open>
  C9, as stated: Enter with no option at the highlight index leaves \<open>value\<close> and
  \<open>search\<close> as they were. It fails for \<open>search\<close>: with \<open>value = 2\<close> (option \<open>B\<close>)
  and the typed text \<open>z\<close>, which no option contains, Enter rewrites \<open>value\<close> with
  itself, the subscriber of \<open>value\<close> runs on that write, and \<open>search\<close> goes from
  \<open>z\<close> back to \<open>B\<close>.
\<close>

theorem enter_without_option_counterexample:
  "js_index
     (filtered (select_run lower_ascii \<lparr>cfg_options = Some [\<lparr>opt_name = ''A'', opt_id = JNum 1\<rparr>,
        \<lparr>opt_name = ''B'', opt_id = JNum 2\<rparr>], cfg_sel_value = Some (JNum 2)\<rparr>
        [Focus, KeyDown \<lparr>key = ''z'', keyCode = 90\<rparr>, Timeout ''z'']))
     (selectedIndex (select_run lower_ascii \<lparr>cfg_options = Some [\<lparr>opt_name = ''A'', opt_id = JNum 1\<rparr>,
        \<lparr>opt_name = ''B'', opt_id = JNum 2\<rparr>], cfg_sel_value = Some (JNum 2)\<rparr>
        [Focus, KeyDown \<lparr>key = ''z'', keyCode = 90\<rparr>, Timeout ''z''])) = None
   \<and> search (select_run lower_ascii \<lparr>cfg_options = Some [\<lparr>opt_name = ''A'', opt_id = JNum 1\<rparr>,
        \<lparr>opt_name = ''B'', opt_id = JNum 2\<rparr>], cfg_sel_value = Some (JNum 2)\<rparr>
        [Focus, KeyDown \<lparr>key = ''z'', keyCode = 90\<rparr>, Timeout ''z'']) = ''z''
   \<and> search (select_onkeydown lower_ascii enter (select_run lower_ascii \<lparr>cfg_options = Some [\<lparr>opt_name = ''A'', opt_id = JNum 1\<rparr>,
        \<lparr>opt_name = ''B'', opt_id = JNum 2\<rparr>], cfg_sel_value = Some (JNum 2)\<rparr>
        [Focus, KeyDown \<lparr>key = ''z'', keyCode = 90\<rparr>, Timeout ''z''])) = ''B''"
  by (simp add: eval_defs)

text \<open>
  C9, amended: Enter with no option at the highlight index does what a write of the
  unchanged value does, and closes the dropdown. \<open>value\<close> keeps its value,
  \<open>optionsVisible\<close> becomes false, and \<open>search\<close> becomes the name of the option whose
  id is the value, or the empty string if there is none.
\<close>

theorem enter_without_option:
  assumes "js_index (filtered st) (selectedIndex st) = None"
  shows "select_onkeydown lower enter st = set_optionsVisible False (set_value lower (sel_value st) st)
       \<and> sel_value (select_onkeydown lower enter st) = sel_value st
       \<and> \<not> optionsVisible (select_onkeydown lower enter st)
       \<and> search (select_onkeydown lower enter st) = name_for (sel_value st) (options st)"
proof -
  have "set_search lower (search (set_value lower (sel_value st) st)) (set_value lower (sel_value st) st)
      = set_value lower (sel_value st) st"
    by (simp add: select_defs Let_def)
  then have e: "select_onkeydown lower enter st = set_optionsVisible False (set_value lower (sel_value st) st)"
    using assms by (simp add: select_onkeydown_def enter_def Let_def coalesce_def nullish_def)
  show ?thesis
    unfolding e by (simp add: select_defs Let_def)
qed

theorem enter_without_option_witness:
  "search (select_onkeydown lower_ascii enter
      \<lparr>options = [\<lparr>opt_name = ''A'', opt_id = JNum 1\<rparr>, \<lparr>opt_name = ''B'', opt_id = JNum 2\<rparr>],
       sel_value = JNum 2, search = ''z'', optionsVisible = True,
       filtered = [\<lparr>opt_name = ''A'', opt_id = JNum 1\<rparr>, \<lparr>opt_name = ''B'', opt_id = JNum 2\<rparr>],
       selectedIndex = Num (- 1), selectedId = JUndefined, pending_reads = 0\<rparr>) = ''B''
   \<and> sel_value (select_onkeydown lower_ascii enter
      \<lparr>options = [\<lparr>opt_name = ''A'', opt_id = JNum 1\<rparr>, \<lparr>opt_name = ''B'', opt_id = JNum 2\<rparr>],
       sel_value = JNum 2, search = ''z'', optionsVisible = True,
       filtered = [\<lparr>opt_name = ''A'', opt_id = JNum 1\<rparr>, \<lparr>opt_name = ''B'', opt_id = JNum 2\<rparr>],
       selectedIndex = Num (- 1), selectedId = JUndefined, pending_reads = 0\<rparr>) = JNum 2
   \<and> \<not> optionsVisible (select_onkeydown lower_ascii enter
      \<lparr>options = [\<lparr>opt_name = ''A'', opt_id = JNum 1\<rparr>, \<lparr>opt_name = ''B'', opt_id = JNum 2\<rparr>],
       sel_value = JNum 2, search = ''z'', optionsVisible = True,
       filtered = [\<lparr>opt_name = ''A'', opt_id = JNum 1\<rparr>, \<lparr>opt_name = ''B'', opt_id = JNum 2\<rparr>],
       selectedIndex = Num (- 1), selectedId = JUndefined, pending_reads = 0\<rparr>)"
proof -
  let ?st = "\<lparr>options = [\<lparr>opt_name = ''A'', opt_id = JNum 1\<rparr>, \<lparr>opt_name = ''B'', opt_id = JNum 2\<rparr>],
       sel_value = JNum 2, search = ''z'', optionsVisible = True,
       filtered = [\<lparr>opt_name = ''A'', opt_id = JNum 1\<rparr>, \<lparr>opt_name = ''B'', opt_id = JNum 2\<rparr>],
       selectedIndex = Num (- 1), selectedId = JUndefined, pending_reads = 0\<rparr>"
  have h: "js_index (filtered ?st) (selectedIndex ?st) = None" by simp
  show ?thesis
    using enter_without_option [where st = ?st and lower = lower_ascii, OF h, THEN conjunct2] by (simp add: name_for_def)
qed

text \<open>
  C10. \<open>lower\<close> is \<open>toLowerCase\<close>, whatever it does to a string, and containing is
  occurring as a contiguous run of code units. When no option's lowered name contains the
  lowered search text, the filter step leaves \<open>selectedIndex\<close> at \<open>-1\<close>, which
  indexes nothing in \<open>filtered\<close>, and \<open>selectedId\<close> at \<open>undefined\<close>; otherwise it
  sets \<open>selectedIndex\<close> to the index of the first option whose lowered name contains the
  lowered search text. When there are no options, the run of \<open>filter\<close> inside the factory
  finds nothing and the factory ends with the same two values.
\<close>

theorem filter_step_index:
  "((\<forall>opt\<in>set (options st). \<not> sublist (lower (search st)) (lower (opt_name opt))) \<longrightarrow>
       selectedIndex (filter_sel lower st) = Num (- 1)
       \<and> js_index (filtered (filter_sel lower st)) (selectedIndex (filter_sel lower st)) = None
       \<and> selectedId (filter_sel lower st) = JUndefined)
   \<and> (\<forall>n. n < length (options st)
            \<and> sublist (lower (search st)) (lower (opt_name (options st ! n)))
            \<and> (\<forall>m<n. \<not> sublist (lower (search st)) (lower (opt_name (options st ! m))))
          \<longrightarrow> selectedIndex (filter_sel lower st) = Num (int n))
   \<and> (cfg_options config = None \<or> cfg_options config = Some [] \<longrightarrow>
       selectedIndex (searchableSelect lower config) = Num (- 1)
       \<and> selectedId (searchableSelect lower config) = JUndefined)"
proof (intro conjI allI impI)
  assume "\<forall>opt\<in>set (options st). \<not> sublist (lower (search st)) (lower (opt_name opt))"
  then have none: "\<forall>opt\<in>set (options st). \<not> matches lower (search st) opt"
    by (simp add: matches_def includes_str_sublist)
  then show i: "selectedIndex (filter_sel lower st) = Num (- 1)"
    by (simp add: selectedIndex_filter_sel findIndex_none)
  then show "js_index (filtered (filter_sel lower st)) (selectedIndex (filter_sel lower st)) = None"
    by simp
  from none show "selectedId (filter_sel lower st) = JUndefined"
    by (simp add: select_defs findIndex_none)
next
  fix n
  assume "n < length (options st)
            \<and> sublist (lower (search st)) (lower (opt_name (options st ! n)))
            \<and> (\<forall>m<n. \<not> sublist (lower (search st)) (lower (opt_name (options st ! m))))"
  then have "n < length (options st) \<and> matches lower (search st) (options st ! n)
            \<and> (\<forall>m<n. \<not> matches lower (search st) (options st ! m))"
    by (simp add: matches_def includes_str_sublist)
  then show "selectedIndex (filter_sel lower st) = Num (int n)"
    by (simp add: selectedIndex_filter_sel findIndex_first)
next
  assume e: "cfg_options config = None \<or> cfg_options config = Some []"
  then show "selectedIndex (searchableSelect lower config) = Num (- 1)"
    by (auto simp: searchableSelect_def Let_def updateSelectedId_def filter_index_def findIndex_def)
  from e show "selectedId (searchableSelect lower config) = JUndefined"
    by (auto simp: searchableSelect_def Let_def updateSelectedId_def filter_index_def findIndex_def)
qed

theorem filter_step_index_witness:
  "selectedIndex (filter_sel lower_ascii
      \<lparr>options = [\<lparr>opt_name = ''Apple'', opt_id = JNum 1\<rparr>, \<lparr>opt_name = ''Banana'', opt_id = JNum 2\<rparr>],
       sel_value = JNull, search = ''kiwi'', optionsVisible = True,
       filtered = [\<lparr>opt_name = ''Apple'', opt_id = JNum 1\<rparr>, \<lparr>opt_name = ''Banana'', opt_id = JNum 2\<rparr>],
       selectedIndex = Num 0, selectedId = JNum 1, pending_reads = 0\<rparr>) = Num (- 1)
   \<and> selectedId (filter_sel lower_ascii
      \<lparr>options = [\<lparr>opt_name = ''Apple'', opt_id = JNum 1\<rparr>, \<lparr>opt_name = ''Banana'', opt_id = JNum 2\<rparr>],
       sel_value = JNull, search = ''kiwi'', optionsVisible = True,
       filtered = [\<lparr>opt_name = ''Apple'', opt_id = JNum 1\<rparr>, \<lparr>opt_name = ''Banana'', opt_id = JNum 2\<rparr>],
       selectedIndex = Num 0, selectedId = JNum 1, pending_reads = 0\<rparr>) = JUndefined
   \<and> selectedIndex (filter_sel lower_ascii
      \<lparr>options = [\<lparr>opt_name = ''Apple'', opt_id = JNum 1\<rparr>, \<lparr>opt_name = ''Banana'', opt_id = JNum 2\<rparr>],
       sel_value = JNull, search = ''BAN'', optionsVisible = True,
       filtered = [\<lparr>opt_name = ''Apple'', opt_id = JNum 1\<rparr>, \<lparr>opt_name = ''Banana'', opt_id = JNum 2\<rparr>],
       selectedIndex = Num 0, selectedId = JNum 1, pending_reads = 0\<rparr>) = Num 1
   \<and> selectedIndex (searchableSelect lower_ascii
      \<lparr>cfg_options = Some ([] :: char select_option list), cfg_sel_value = None\<rparr>) = Num (- 1)"
proof -
  let ?os = "[\<lparr>opt_name = ''Apple'', opt_id = JNum 1\<rparr>, \<lparr>opt_name = ''Banana'', opt_id = JNum 2\<rparr>]"
  let ?k = "\<lparr>options = ?os, sel_value = JNull, search = ''kiwi'', optionsVisible = True,
       filtered = ?os, selectedIndex = Num 0, selectedId = JNum 1, pending_reads = 0\<rparr>"
  let ?n = "\<lparr>options = ?os, sel_value = JNull, search = ''BAN'', optionsVisible = True,
       filtered = ?os, selectedIndex = Num 0, selectedId = JNum 1, pending_reads = 0\<rparr>"
  let ?c = "\<lparr>cfg_options = Some ([] :: char select_option list), cfg_sel_value = None\<rparr>"
  have k: "\<forall>opt\<in>set (options ?k). \<not> sublist (lower_ascii (search ?k)) (lower_ascii (opt_name opt))"
    by (simp add: includes_str_sublist [symmetric] char_defs)
  have n: "1 < length (options ?n)
            \<and> sublist (lower_ascii (search ?n)) (lower_ascii (opt_name (options ?n ! 1)))
            \<and> (\<forall>m<1. \<not> sublist (lower_ascii (search ?n)) (lower_ascii (opt_name (options ?n ! m))))"
    by (simp add: includes_str_sublist [symmetric] char_defs)
  have c: "cfg_options ?c = None \<or> cfg_options ?c = Some []" by simp
  from filter_step_index [where st = ?k and lower = lower_ascii and config = ?c] k
  have "selectedIndex (filter_sel lower_ascii ?k) = Num (- 1)
      \<and> selectedId (filter_sel lower_ascii ?k) = JUndefined"
    by blast
  moreover from filter_step_index [where st = ?n and lower = lower_ascii and config = ?c] n
  have "selectedIndex (filter_sel lower_ascii ?n) = Num (int 1)" by blast
  moreover from filter_step_index [where st = ?k and lower = lower_ascii and config = ?c] c
  have "selectedIndex (searchableSelect lower_ascii ?c) = Num (- 1)" by blast
  ultimately show ?thesis by simp
qed

end
